theory Spec2Isabelle
  imports Complex_Main "HOL-Library.AList" "HOL-Library.Word"
begin

section \<open>Llimcobe: a lossless image compression benchmark harness\<close>

text \<open>
  The development embeds the class \<^verbatim>\<open>Llimcobe\<close> of \<^verbatim>\<open>src/llimcobe/llimcobe.py\<close>:
  the model registry (\<^verbatim>\<open>set_model\<close>, \<^verbatim>\<open>get_model\<close>, \<^verbatim>\<open>del_model\<close>), the
  constructor and the measurement and reporting part of \<^verbatim>\<open>benchmark\<close>.

  Conventions of the embedding.
  \<^item> An exception is a value of \<open>py_error\<close>; a computation that may raise returns
    \<open>py_error + 'x\<close>, with \<open>Inl\<close> the exception.
  \<^item> An optional Python argument is an \<open>option\<close>: \<open>None\<close> is Python's \<^verbatim>\<open>None\<close>, and
    \<open>Some f\<close> is a function object, which Python counts as true. A name is a \<^verbatim>\<open>str\<close>
    or \<^verbatim>\<open>None\<close>; the empty string counts as false.
  \<^item> What \<^verbatim>\<open>==\<close> does depends on the type of its operands, so Python's \<^verbatim>\<open>==\<close> on the
    preprocessed images is a parameter \<open>eq\<close>.
  \<^item> Python floats are idealised as the reals; \<^verbatim>\<open>/\<close> raises \<^verbatim>\<open>ZeroDivisionError\<close>
    on a zero divisor (\<open>truediv\<close>).
  \<^item> The file at the path \<^verbatim>\<open>self.temp\<close> is the scratch slot: \<open>None\<close> when no file
    exists there, \<open>Some bs\<close> when it exists with the bytes \<open>bs\<close>.
  \<^item> The \<open>k\<close>-th call of \<^verbatim>\<open>time.perf_counter()\<close> in a run returns \<open>perf_counter env k\<close>.
  \<^item> The model dictionary is an association list in insertion order, as iteration over a
    Python \<^verbatim>\<open>dict\<close> is.
\<close>

subsection \<open>Values\<close>

datatype py_error =
    ZeroDivisionError
  | TypeError
  | ValueError
  | KeyError
  | AttributeError
  | RuntimeError
  | FileNotFoundError
  | HookError string

type_synonym byte = "8 word"

type_synonym slot = "byte list option"

text \<open>A numpy array: its shape, the byte width of one element and its elements.\<close>

record ndarray =
  shape :: "nat list"
  itemsize :: nat
  elems :: "nat list"

text \<open>\<^verbatim>\<open>np.size(a)\<close>: the number of elements, the product of the shape.\<close>

definition np_size :: "ndarray \<Rightarrow> nat" where
  "np_size a = prod_list (shape a)"

text \<open>
  numpy's \<^verbatim>\<open>a == b\<close> on two arrays followed by the truth test that \<^verbatim>\<open>not\<close> applies to the
  result, as numpy 2.2 has them. \<^verbatim>\<open>==\<close> compares element by element and returns an array
  of the common (broadcast) shape, and raises \<^verbatim>\<open>ValueError\<close> for shapes that cannot be
  broadcast; the truth test raises \<^verbatim>\<open>ValueError\<close> unless that array has exactly one
  element, which is the case exactly when both operands have one element.
\<close>

definition ndarray_eq :: "ndarray \<Rightarrow> ndarray \<Rightarrow> py_error + bool" where
  "ndarray_eq a b =
     (if np_size a = 1 \<and> np_size b = 1 then Inr (elems a = elems b) else Inl ValueError)"

text \<open>Python's true division.\<close>

definition truediv :: "real \<Rightarrow> real \<Rightarrow> py_error + real" where
  "truediv a b = (if b = 0 then Inl ZeroDivisionError else Inr (a / b))"

text \<open>Truth value of an optional hook and of a name.\<close>

definition truthy :: "'x option \<Rightarrow> bool" where
  "truthy x = (case x of None \<Rightarrow> False | Some _ \<Rightarrow> True)"

definition truthy_name :: "string option \<Rightarrow> bool" where
  "truthy_name x = (case x of None \<Rightarrow> False | Some s \<Rightarrow> s \<noteq> [])"

subsection \<open>The model registry\<close>

text \<open>
  The hooks of a model. \<open>'a\<close> is the type \<^verbatim>\<open>T1\<close> of preprocessed images and \<open>'b\<close> the
  type \<^verbatim>\<open>T2\<close> of what the model returns. The save hook receives a \<^verbatim>\<open>T1\<close> (\<open>Inl\<close>) or
  a \<^verbatim>\<open>T2\<close> (\<open>Inr\<close>) and the path of the scratch slot, on whose file it acts; the load
  hook receives the path and returns an array. The value of a comparison is the truth
  value that \<^verbatim>\<open>not\<close> takes of what it returns at line 118, or the exception that the call
  or the truth test raises.
\<close>

type_synonym ('a, 'b) model_hook = "'a \<Rightarrow> py_error + 'b"
type_synonym 'a preprocess_hook = "ndarray \<Rightarrow> py_error + 'a"
type_synonym ('a, 'b) save_hook = "'a + 'b \<Rightarrow> slot \<Rightarrow> py_error + slot"
type_synonym load_hook = "slot \<Rightarrow> py_error + ndarray \<times> slot"
type_synonym 'a compare_hook = "'a \<Rightarrow> 'a \<Rightarrow> py_error + bool"

text \<open>The dictionary stored under a name (lines 57-58).\<close>

record ('a, 'b) entry =
  model :: "('a, 'b) model_hook option"
  preprocess :: "'a preprocess_hook option"
  save :: "('a, 'b) save_hook option"
  load :: "load_hook option"
  compare :: "'a compare_hook"

text \<open>The object: \<^verbatim>\<open>self.models\<close>, \<^verbatim>\<open>self.dataset\<close>, \<^verbatim>\<open>self.lens\<close>.\<close>

record ('a, 'b) llimcobe =
  models :: "(string \<times> ('a, 'b) entry) list"
  dataset :: "ndarray list"
  lens :: "nat list"

text \<open>
  \<^verbatim>\<open>__init__\<close> (lines 15-25), given what \<^verbatim>\<open>prepare_dataset\<close> returns and the file found
  at \<^verbatim>\<open>self.temp\<close>; it returns the object and the file left there.
\<close>

definition init :: "ndarray list \<Rightarrow> slot \<Rightarrow> ('a, 'b) llimcobe \<times> slot" where
  "init prepared stale =
     (\<lparr>models = [], dataset = prepared, lens = map np_size prepared\<rparr>,
      (if stale \<noteq> None then None else stale))"

text \<open>
  The default comparison, \<^verbatim>\<open>lambda x, y: x == y\<close>, for \<open>eq\<close> Python's \<^verbatim>\<open>==\<close> on values of
  \<^verbatim>\<open>T1\<close>.
\<close>

definition default_compare :: "'a compare_hook \<Rightarrow> 'a compare_hook" where
  "default_compare eq = (\<lambda>x y. eq x y)"

text \<open>
  \<^verbatim>\<open>set_model\<close> (lines 56-61): the result and the object afterwards. The first argument
  is Python's \<^verbatim>\<open>==\<close> on values of \<^verbatim>\<open>T1\<close>, which the lambda of line 58 refers to.
\<close>

definition set_model ::
  "'a compare_hook \<Rightarrow> ('a, 'b) llimcobe \<Rightarrow> string option \<Rightarrow> ('a, 'b) model_hook option \<Rightarrow>
   'a preprocess_hook option \<Rightarrow> ('a, 'b) save_hook option \<Rightarrow> load_hook option \<Rightarrow>
   'a compare_hook option \<Rightarrow> bool \<times> ('a, 'b) llimcobe" where
  "set_model eq self name_arg model_arg preprocess_arg save_arg load_arg compare_arg =
     (if (truthy_name name_arg \<and> truthy model_arg \<and> truthy save_arg \<and> truthy load_arg)
         \<or> (truthy_name name_arg \<and> truthy save_arg \<and> truthy load_arg)
      then (case name_arg of
              None \<Rightarrow> (False, self)
            | Some n \<Rightarrow>
                (True,
                 self\<lparr>models :=
                   AList.update n
                     \<lparr>model = model_arg, preprocess = preprocess_arg, save = save_arg,
                      load = load_arg,
                      compare =
                        (case compare_arg of Some c \<Rightarrow> c | None \<Rightarrow> default_compare eq)\<rparr>
                     (models self)\<rparr>))
      else (False, self))"

text \<open>What \<^verbatim>\<open>get_model\<close> returns: the model hook, the stored save hook, or \<^verbatim>\<open>False\<close>.\<close>

datatype ('a, 'b) got =
    GotModel "('a, 'b) model_hook"
  | GotSave "('a, 'b) save_hook option"
  | GotFalse

text \<open>\<^verbatim>\<open>get_model\<close> (lines 69-73).\<close>

definition get_model :: "('a, 'b) llimcobe \<Rightarrow> string \<Rightarrow> ('a, 'b) got" where
  "get_model self name =
     (case map_of (models self) name of
        Some e \<Rightarrow> (case model e of Some m \<Rightarrow> GotModel m | None \<Rightarrow> GotSave (save e))
      | None \<Rightarrow> GotFalse)"

text \<open>\<^verbatim>\<open>del_model\<close> (lines 81-84): the result and the object afterwards.\<close>

definition del_model :: "('a, 'b) llimcobe \<Rightarrow> string \<Rightarrow> bool \<times> ('a, 'b) llimcobe" where
  "del_model self name =
     (if name \<in> fst ` set (models self)
      then (True, self\<lparr>models := AList.delete name (models self)\<rparr>)
      else (False, self))"

subsection \<open>The benchmark\<close>

text \<open>
  The steps of the \<^verbatim>\<open>try\<close> block of lines 122-129, as the main thread performs them:
  building the first thread (which reads the attribute \<^verbatim>\<open>image.show\<close>), starting it,
  the same for the second, and the two joins. What the threads themselves do is not
  observed by the main thread.
\<close>

datatype diag_op = MakeThread1 | Start1 | MakeThread2 | Start2 | Join1 | Join2

definition display_steps :: "diag_op list" where
  "display_steps = [MakeThread1, Start1, MakeThread2, Start2, Join1, Join2]"

text \<open>
  The surroundings of a run: the readings of \<^verbatim>\<open>time.perf_counter()\<close> in call order,
  and which step of the display of a pair of images raises, if any.
\<close>

record 'a env =
  perf_counter :: "nat \<Rightarrow> real"
  diag_fails :: "'a \<Rightarrow> 'a \<Rightarrow> diag_op \<Rightarrow> py_error option"

text \<open>
  The state a run threads through its iterations: the file at \<^verbatim>\<open>self.temp\<close>, the number
  of clock readings taken, the local \<^verbatim>\<open>lossy_flag\<close>, the number of warnings emitted by
  line 119 and the display steps completed.
\<close>

record run_state =
  temp :: slot
  ticks :: nat
  lossy_flag :: bool
  warned :: nat
  displayed :: "diag_op list"

text \<open>One measurement: what lines 136-138 append to the three lists.\<close>

record row =
  bpsp :: real
  compression_throughput :: real
  decompression_throughput :: real

text \<open>The three lists of one model (lines 101-103).\<close>

record metrics =
  bpsp_list :: "real list"
  compression_throughput_list :: "real list"
  decompression_throughput_list :: "real list"

definition empty_metrics :: metrics where
  "empty_metrics =
     \<lparr>bpsp_list = [], compression_throughput_list = [], decompression_throughput_list = []\<rparr>"

definition append_row :: "metrics \<Rightarrow> row \<Rightarrow> metrics" where
  "append_row m r =
     \<lparr>bpsp_list = bpsp_list m @ [bpsp r],
      compression_throughput_list = compression_throughput_list m @ [compression_throughput r],
      decompression_throughput_list =
        decompression_throughput_list m @ [decompression_throughput r]\<rparr>"

text \<open>Calling a stored hook; calling \<^verbatim>\<open>None\<close> raises \<^verbatim>\<open>TypeError\<close>.\<close>

definition call_preprocess :: "('a, 'b) entry \<Rightarrow> ndarray \<Rightarrow> py_error + 'a" where
  "call_preprocess e x = (case preprocess e of None \<Rightarrow> Inl TypeError | Some p \<Rightarrow> p x)"

definition call_save :: "('a, 'b) entry \<Rightarrow> 'a + 'b \<Rightarrow> slot \<Rightarrow> py_error + slot" where
  "call_save e x f = (case save e of None \<Rightarrow> Inl TypeError | Some sv \<Rightarrow> sv x f)"

definition call_load :: "('a, 'b) entry \<Rightarrow> slot \<Rightarrow> py_error + ndarray \<times> slot" where
  "call_load e f = (case load e of None \<Rightarrow> Inl TypeError | Some ld \<Rightarrow> ld f)"

text \<open>\<^verbatim>\<open>os.path.getsize\<close> and \<^verbatim>\<open>os.remove\<close> on the scratch slot.\<close>

definition getsize :: "slot \<Rightarrow> py_error + nat" where
  "getsize f = (case f of None \<Rightarrow> Inl FileNotFoundError | Some bs \<Rightarrow> Inr (length bs))"

definition remove_file :: "slot \<Rightarrow> py_error + slot" where
  "remove_file f = (case f of None \<Rightarrow> Inl FileNotFoundError | Some _ \<Rightarrow> Inr None)"

text \<open>\<^verbatim>\<open>list(map(f, xs))\<close> for a hook that may raise: the first exception ends it.\<close>

fun map_hook :: "('x \<Rightarrow> py_error + 'y) \<Rightarrow> 'x list \<Rightarrow> py_error + 'y list" where
  "map_hook f [] = Inr []"
| "map_hook f (x # xs) =
     (case f x of
        Inl err \<Rightarrow> Inl err
      | Inr y \<Rightarrow> (case map_hook f xs of Inl err \<Rightarrow> Inl err | Inr ys \<Rightarrow> Inr (y # ys)))"

text \<open>
  The body of the \<^verbatim>\<open>try\<close> block: the steps completed and the exception that ended it,
  if any.
\<close>

fun try_display ::
  "(diag_op \<Rightarrow> py_error option) \<Rightarrow> diag_op list \<Rightarrow> diag_op list \<times> py_error option" where
  "try_display fails [] = ([], None)"
| "try_display fails (d # ds) =
     (case fails d of
        Some err \<Rightarrow> ([], Some err)
      | None \<Rightarrow> (case try_display fails ds of (finished, r) \<Rightarrow> (d # finished, r)))"

text \<open>
  Lines 105-111, the compression phase: the file at \<^verbatim>\<open>self.temp\<close> afterwards.
\<close>

definition compress :: "('a, 'b) entry \<Rightarrow> 'a \<Rightarrow> slot \<Rightarrow> py_error + slot" where
  "compress e img f =
     (case model e of
        Some m \<Rightarrow>
          (case m img of
             Inl err \<Rightarrow> Inl err
           | Inr compressed \<Rightarrow> call_save e (Inr compressed) f)
      | None \<Rightarrow> call_save e (Inl img) f)"

text \<open>
  Lines 118-132, the comparison and the diagnostic. \<^verbatim>\<open>except: pass\<close> drops the exception
  of the \<^verbatim>\<open>try\<close> block, so only the completed steps are kept.
\<close>

definition fidelity ::
  "'a env \<Rightarrow> ('a, 'b) entry \<Rightarrow> 'a \<Rightarrow> 'a \<Rightarrow> run_state \<Rightarrow> py_error + run_state" where
  "fidelity ev e img loaded s =
     (case compare e img loaded of
        Inl err \<Rightarrow> Inl err
      | Inr same \<Rightarrow>
          (if \<not> same \<and> lossy_flag s = False
           then Inr (s\<lparr>warned := Suc (warned s),
                       displayed :=
                         displayed s @ fst (try_display (diag_fails ev img loaded) display_steps),
                       lossy_flag := True\<rparr>)
           else Inr s))"

text \<open>
  Lines 105-138, one iteration of the inner loop for the preprocessed image \<open>image\<close> and
  its element count \<open>len\<close>: the measurement and the state afterwards.
\<close>

definition measure_image ::
  "'a env \<Rightarrow> ('a, 'b) entry \<Rightarrow> 'a \<Rightarrow> nat \<Rightarrow> run_state \<Rightarrow> py_error + row \<times> run_state" where
  "measure_image ev e img len s =
     (let start_time1 = perf_counter ev (ticks s) in
      case compress e img (temp s) of
        Inl err \<Rightarrow> Inl err
      | Inr f1 \<Rightarrow>
     (let elapsed_time1 = perf_counter ev (ticks s + 1) - start_time1;
          start_time2 = perf_counter ev (ticks s + 2) in
      case call_load e f1 of
        Inl err \<Rightarrow> Inl err
      | Inr (loaded_raw, f2) \<Rightarrow>
     (let elapsed_time2 = perf_counter ev (ticks s + 3) - start_time2;
          pixel_size = itemsize loaded_raw * 8 in
      case call_preprocess e loaded_raw of
        Inl err \<Rightarrow> Inl err
      | Inr loaded \<Rightarrow>
     (case fidelity ev e img loaded (s\<lparr>temp := f2, ticks := ticks s + 4\<rparr>) of
        Inl err \<Rightarrow> Inl err
      | Inr s1 \<Rightarrow>
     (case getsize (temp s1) of
        Inl err \<Rightarrow> Inl err
      | Inr sz \<Rightarrow>
     (let image_size = sz * 8 in
      case remove_file (temp s1) of
        Inl err \<Rightarrow> Inl err
      | Inr f3 \<Rightarrow>
     (case truediv (real image_size) (real len) of
        Inl err \<Rightarrow> Inl err
      | Inr b \<Rightarrow>
     (case truediv (real (len * pixel_size) / (8 * 10 ^ 6)) elapsed_time1 of
        Inl err \<Rightarrow> Inl err
      | Inr ct \<Rightarrow>
     (case truediv (real (len * pixel_size) / (8 * 10 ^ 6)) elapsed_time2 of
        Inl err \<Rightarrow> Inl err
      | Inr dt \<Rightarrow>
          Inr (\<lparr>bpsp = b, compression_throughput = ct, decompression_throughput = dt\<rparr>,
               s1\<lparr>temp := f3\<rparr>))))))))))"

text \<open>
  The inner loop (line 104) over the triples of
  \<^verbatim>\<open>zip(dataset, self.lens, range(num_images))\<close>.
\<close>

fun measure_loop ::
  "'a env \<Rightarrow> ('a, 'b) entry \<Rightarrow> ('a \<times> nat \<times> nat) list \<Rightarrow> metrics \<Rightarrow> run_state \<Rightarrow>
   py_error + metrics \<times> run_state" where
  "measure_loop ev e [] acc s = Inr (acc, s)"
| "measure_loop ev e ((img, len, i) # rest) acc s =
     (case measure_image ev e img len s of
        Inl err \<Rightarrow> Inl err
      | Inr (r, s') \<Rightarrow> measure_loop ev e rest (append_row acc r) s')"

text \<open>
  Lines 100-138, the body of the outer loop for one model: the whole dataset is
  preprocessed, then the inner loop runs. \<^verbatim>\<open>range(num_images)\<close> is empty for
  \<open>num_images \<le> 0\<close>.
\<close>

definition run_model ::
  "'a env \<Rightarrow> ('a, 'b) llimcobe \<Rightarrow> int \<Rightarrow> ('a, 'b) entry \<Rightarrow> run_state \<Rightarrow>
   py_error + metrics \<times> run_state" where
  "run_model ev self num_images e s =
     (case map_hook (call_preprocess e) (dataset self) of
        Inl err \<Rightarrow> Inl err
      | Inr ds \<Rightarrow>
          measure_loop ev e (zip ds (zip (lens self) [0..<nat num_images])) empty_metrics s)"

text \<open>The dictionaries \<^verbatim>\<open>all_bpsp\<close>, \<^verbatim>\<open>all_throughput\<close>, \<^verbatim>\<open>all_dthroughput\<close>.\<close>

record results =
  all_bpsp :: "(string \<times> real list) list"
  all_throughput :: "(string \<times> real list) list"
  all_dthroughput :: "(string \<times> real list) list"

definition empty_results :: results where
  "empty_results = \<lparr>all_bpsp = [], all_throughput = [], all_dthroughput = []\<rparr>"

text \<open>\<^verbatim>\<open>d[k]\<close> on a dictionary.\<close>

definition getitem :: "(string \<times> 'v) list \<Rightarrow> string \<Rightarrow> py_error + 'v" where
  "getitem d k = (case map_of d k of None \<Rightarrow> Inl KeyError | Some v \<Rightarrow> Inr v)"

text \<open>The outer loop (lines 99-142) over the names of \<^verbatim>\<open>self.models\<close>.\<close>

fun run_models ::
  "'a env \<Rightarrow> ('a, 'b) llimcobe \<Rightarrow> int \<Rightarrow> string list \<Rightarrow> results \<Rightarrow> run_state \<Rightarrow>
   py_error + results \<times> run_state" where
  "run_models ev self num_images [] res s = Inr (res, s)"
| "run_models ev self num_images (name # rest) res s =
     (case getitem (models self) name of
        Inl err \<Rightarrow> Inl err
      | Inr e \<Rightarrow>
     (case run_model ev self num_images e s of
        Inl err \<Rightarrow> Inl err
      | Inr (m, s') \<Rightarrow>
          run_models ev self num_images rest
            (res\<lparr>all_bpsp := AList.update name (bpsp_list m) (all_bpsp res),
                 all_throughput :=
                   AList.update name (compression_throughput_list m) (all_throughput res),
                 all_dthroughput :=
                   AList.update name (decompression_throughput_list m) (all_dthroughput res)\<rparr>)
            s'))"

text \<open>\<^verbatim>\<open>sum(xs) / len(xs)\<close>.\<close>

definition mean :: "real list \<Rightarrow> py_error + real" where
  "mean xs = truediv (sum_list xs) (real (length xs))"

text \<open>The three printed lines of a model, with the value each one formats.\<close>

datatype line =
    RateLine string real
  | ThroughputLine string real
  | DThroughputLine string real

text \<open>Lines 144-149: the lines printed, after those of \<open>out\<close>.\<close>

fun report :: "results \<Rightarrow> string list \<Rightarrow> line list \<Rightarrow> py_error + line list" where
  "report res [] out = Inr out"
| "report res (name # rest) out =
     (case getitem (all_bpsp res) name of
        Inl err \<Rightarrow> Inl err
      | Inr bs \<Rightarrow>
     (case mean bs of
        Inl err \<Rightarrow> Inl err
      | Inr m1 \<Rightarrow>
     (case getitem (all_throughput res) name of
        Inl err \<Rightarrow> Inl err
      | Inr cs \<Rightarrow>
     (case mean cs of
        Inl err \<Rightarrow> Inl err
      | Inr m2 \<Rightarrow>
     (case getitem (all_dthroughput res) name of
        Inl err \<Rightarrow> Inl err
      | Inr ds \<Rightarrow>
     (case mean ds of
        Inl err \<Rightarrow> Inl err
      | Inr m3 \<Rightarrow>
          report res rest
            (out @ [RateLine name m1, ThroughputLine name m2, DThroughputLine name m3])))))))"

text \<open>The state in which a run starts (lines 94-97), with \<open>f\<close> the file found in the slot.\<close>

definition initial_state :: "slot \<Rightarrow> run_state" where
  "initial_state f = \<lparr>temp = f, ticks = 0, lossy_flag = False, warned = 0, displayed = []\<rparr>"

text \<open>
  \<^verbatim>\<open>benchmark\<close> up to line 149: the lines printed, the three dictionaries and the final
  state. The rest of the function hands sorted copies of the lists and the same means to
  the plotting library and is left out.
\<close>

definition benchmark ::
  "'a env \<Rightarrow> ('a, 'b) llimcobe \<Rightarrow> int \<Rightarrow> slot \<Rightarrow>
   py_error + line list \<times> results \<times> run_state" where
  "benchmark ev self num_images f =
     (case run_models ev self num_images (map fst (models self)) empty_results
             (initial_state f) of
        Inl err \<Rightarrow> Inl err
      | Inr (res, s) \<Rightarrow>
          (case report res (map fst (models self)) [] of
             Inl err \<Rightarrow> Inl err
           | Inr out \<Rightarrow> Inr (out, res, s)))"

text \<open>
  Lines 105-114 without the clock: the array loaded and the file in the slot when
  line 134 measures it, for an iteration that finds the file \<open>f\<close> in the slot.
\<close>

definition roundtrip :: "('a, 'b) entry \<Rightarrow> 'a \<Rightarrow> slot \<Rightarrow> py_error + ndarray \<times> slot" where
  "roundtrip e img f =
     (case compress e img f of Inl err \<Rightarrow> Inl err | Inr f1 \<Rightarrow> call_load e f1)"

text \<open>
  Lines 105-118 without the clock: the value of the comparison of line 118 in an
  iteration that finds the file \<open>f\<close> in the slot, and the preprocessed loaded image it
  compares with.
\<close>

definition loaded_image :: "('a, 'b) entry \<Rightarrow> 'a \<Rightarrow> slot \<Rightarrow> py_error + 'a" where
  "loaded_image e img f =
     (case roundtrip e img f of
        Inl err \<Rightarrow> Inl err
      | Inr (loaded_raw, f2) \<Rightarrow> call_preprocess e loaded_raw)"

definition matches :: "('a, 'b) entry \<Rightarrow> 'a \<Rightarrow> slot \<Rightarrow> py_error + bool" where
  "matches e img f =
     (case loaded_image e img f of Inl err \<Rightarrow> Inl err | Inr loaded \<Rightarrow> compare e img loaded)"

text \<open>A result with the record of the display steps left out.\<close>

definition without_display :: "py_error + 'r \<times> run_state \<Rightarrow> py_error + 'r \<times> run_state" where
  "without_display x =
     (case x of Inl err \<Rightarrow> Inl err | Inr (r, s) \<Rightarrow> Inr (r, s\<lparr>displayed := []\<rparr>))"

text \<open>The number of triples of \<^verbatim>\<open>zip(dataset, self.lens, range(num_images))\<close>.\<close>

definition iterations :: "('a, 'b) llimcobe \<Rightarrow> int \<Rightarrow> nat" where
  "iterations self num_images =
     min (length (dataset self)) (min (length (lens self)) (nat num_images))"

text \<open>
  What the constructor establishes and the registry operations keep: the cached
  element counts belong to the dataset, and the keys of the dictionary are distinct.
\<close>

definition well_formed :: "('a, 'b) llimcobe \<Rightarrow> bool" where
  "well_formed self =
     (lens self = map np_size (dataset self) \<and> distinct (map fst (models self)))"

subsection \<open>A small harness\<close>

text \<open>
  Three images of shape 2 x 2 x 1 with one byte per element, and two models over them.
  The model \<open>raw\<close> has a model hook that turns the elements into bytes, and its load
  hook reads them back. The model \<open>half\<close> has no model hook; its save hook writes two
  bytes whatever the image is, and its load hook returns an array of zeros. Both are
  registered with a comparison that returns a boolean, numpy's \<^verbatim>\<open>array_equal\<close>. The
  model \<open>plain\<close> is \<open>raw\<close> without a model hook, registered without a comparison.
\<close>

definition ex_image :: ndarray where
  "ex_image = \<lparr>shape = [2, 2, 1], itemsize = 1, elems = [1, 2, 3, 4]\<rparr>"

definition ex_dataset :: "ndarray list" where
  "ex_dataset =
     [ex_image, ex_image\<lparr>elems := [5, 6, 7, 8]\<rparr>, ex_image\<lparr>elems := [0, 0, 0, 0]\<rparr>]"

definition ex_preprocess :: "ndarray preprocess_hook" where
  "ex_preprocess = (\<lambda>a. Inr a)"

definition ex_model :: "(ndarray, byte list) model_hook" where
  "ex_model = (\<lambda>a. Inr (map of_nat (elems a)))"

definition ex_save :: "(ndarray, byte list) save_hook" where
  "ex_save =
     (\<lambda>x f. case x of Inl a \<Rightarrow> Inr (Some (map of_nat (elems a))) | Inr bs \<Rightarrow> Inr (Some bs))"

definition ex_load :: load_hook where
  "ex_load =
     (\<lambda>f. case f of
        None \<Rightarrow> Inl FileNotFoundError
      | Some bs \<Rightarrow> Inr (\<lparr>shape = [2, 2, 1], itemsize = 1, elems = map unat bs\<rparr>, f))"

definition ex_half_save :: "(ndarray, byte list) save_hook" where
  "ex_half_save = (\<lambda>x f. Inr (Some [0, 0]))"

definition ex_half_load :: load_hook where
  "ex_half_load =
     (\<lambda>f. case f of
        None \<Rightarrow> Inl FileNotFoundError
      | Some bs \<Rightarrow> Inr (\<lparr>shape = [2, 2, 1], itemsize = 1, elems = [0, 0, 0, 0]\<rparr>, f))"

text \<open>\<^verbatim>\<open>numpy.array_equal\<close>: the same shape and the same elements.\<close>

definition ex_compare :: "ndarray compare_hook" where
  "ex_compare = (\<lambda>x y. Inr (shape x = shape y \<and> elems x = elems y))"

text \<open>A preprocess hook that raises on the third image of the dataset only.\<close>

definition ex_picky_preprocess :: "ndarray preprocess_hook" where
  "ex_picky_preprocess =
     (\<lambda>a. if elems a = [0, 0, 0, 0] then Inl (HookError ''blank image'') else Inr a)"

text \<open>
  A clock that advances by one per reading. The images are numpy arrays, which have no
  \<^verbatim>\<open>show\<close> attribute: building the first thread raises \<^verbatim>\<open>AttributeError\<close>.
\<close>

definition ex_env :: "ndarray env" where
  "ex_env =
     \<lparr>perf_counter = (\<lambda>k. real k),
      diag_fails = (\<lambda>x y d. if d = MakeThread1 then Some AttributeError else None)\<rparr>"

definition ex_raw_entry :: "(ndarray, byte list) entry" where
  "ex_raw_entry =
     \<lparr>model = Some ex_model, preprocess = Some ex_preprocess, save = Some ex_save,
      load = Some ex_load, compare = ex_compare\<rparr>"

definition ex_half_entry :: "(ndarray, byte list) entry" where
  "ex_half_entry =
     \<lparr>model = None, preprocess = Some ex_preprocess, save = Some ex_half_save,
      load = Some ex_half_load, compare = ex_compare\<rparr>"

definition ex_plain_entry :: "(ndarray, byte list) entry" where
  "ex_plain_entry =
     \<lparr>model = None, preprocess = Some ex_preprocess, save = Some ex_save,
      load = Some ex_load, compare = default_compare ndarray_eq\<rparr>"

definition ex_empty :: "(ndarray, byte list) llimcobe" where
  "ex_empty = fst (init ex_dataset (Some [7]))"

definition ex_raw_only :: "(ndarray, byte list) llimcobe" where
  "ex_raw_only =
     snd (set_model ndarray_eq ex_empty (Some ''raw'') (Some ex_model) (Some ex_preprocess)
            (Some ex_save) (Some ex_load) (Some ex_compare))"

definition ex_harness :: "(ndarray, byte list) llimcobe" where
  "ex_harness =
     snd (set_model ndarray_eq ex_raw_only (Some ''half'') None (Some ex_preprocess)
            (Some ex_half_save) (Some ex_half_load) (Some ex_compare))"

text \<open>A harness whose only model is registered without a comparison.\<close>

definition ex_plain_harness :: "(ndarray, byte list) llimcobe" where
  "ex_plain_harness =
     snd (set_model ndarray_eq ex_empty (Some ''plain'') None (Some ex_preprocess)
            (Some ex_save) (Some ex_load) None)"

text \<open>A harness whose only model cannot preprocess the third image.\<close>

definition ex_picky_entry :: "(ndarray, byte list) entry" where
  "ex_picky_entry =
     \<lparr>model = None, preprocess = Some ex_picky_preprocess, save = Some ex_half_save,
      load = Some ex_half_load, compare = ex_compare\<rparr>"

definition ex_picky_harness :: "(ndarray, byte list) llimcobe" where
  "ex_picky_harness =
     snd (set_model ndarray_eq ex_empty (Some ''picky'') None (Some ex_picky_preprocess)
            (Some ex_half_save) (Some ex_half_load) (Some ex_compare))"

text \<open>What the run of the two models over two images records.\<close>

definition ex_results :: results where
  "ex_results =
     \<lparr>all_bpsp = [(''raw'', [8, 8]), (''half'', [4, 4])],
      all_throughput = [(''raw'', [4 / 10 ^ 6, 4 / 10 ^ 6]), (''half'', [4 / 10 ^ 6, 4 / 10 ^ 6])],
      all_dthroughput = [(''raw'', [4 / 10 ^ 6, 4 / 10 ^ 6]), (''half'', [4 / 10 ^ 6, 4 / 10 ^ 6])]\<rparr>"

section \<open>The registry\<close>

lemma get_model_unknown:
  "k \<notin> fst ` set (models self) \<Longrightarrow> get_model self k = GotFalse"
proof -
  assume "k \<notin> fst ` set (models self)"
  then have "map_of (models self) k = None"
    by (simp add: map_of_eq_None_iff)
  then show ?thesis
    by (simp add: get_model_def)
qed

lemma get_after_del: "get_model (snd (del_model self k)) k = GotFalse"
proof (cases "k \<in> fst ` set (models self)")
  case True
  then have "map_of (models (snd (del_model self k))) k = None"
    by (simp add: del_model_def delete_conv')
  then show ?thesis
    by (simp add: get_model_def)
next
  case False
  then show ?thesis
    by (simp add: del_model_def get_model_unknown)
qed

text \<open>
  C3. \<^verbatim>\<open>set_model\<close> returns \<^verbatim>\<open>True\<close> exactly when the name, the save hook and the load
  hook are provided, that is, count as true for line 56: the name is a non-empty string
  and the two hooks are not \<^verbatim>\<open>None\<close>. The model hook, the preprocess hook and the
  comparison play no part. On acceptance the entry is stored under the name, with the
  arguments as its fields; otherwise the object is unchanged. \<^verbatim>\<open>set_model\<close> has no
  exceptional result: nothing in lines 56-61 can raise.
\<close>

theorem set_model_accepts_exactly:
  "fst (set_model eq self name m p sv ld c) =
     ((\<exists>n. name = Some n \<and> n \<noteq> []) \<and> sv \<noteq> None \<and> ld \<noteq> None)
   \<and> ((\<exists>n. name = Some n \<and> n \<noteq> []) \<and> sv \<noteq> None \<and> ld \<noteq> None \<longrightarrow>
        (\<exists>n. name = Some n \<and>
           snd (set_model eq self name m p sv ld c) =
             self\<lparr>models := AList.update n
                \<lparr>model = m, preprocess = p, save = sv, load = ld,
                 compare = (case c of Some f \<Rightarrow> f | None \<Rightarrow> default_compare eq)\<rparr>
                (models self)\<rparr> \<and>
           map_of (models (snd (set_model eq self name m p sv ld c))) n =
             Some \<lparr>model = m, preprocess = p, save = sv, load = ld,
                   compare = (case c of Some f \<Rightarrow> f | None \<Rightarrow> default_compare eq)\<rparr>))
   \<and> (\<not> ((\<exists>n. name = Some n \<and> n \<noteq> []) \<and> sv \<noteq> None \<and> ld \<noteq> None) \<longrightarrow>
        snd (set_model eq self name m p sv ld c) = self)"
  by (cases name; cases sv; cases ld)
     (auto simp: set_model_def truthy_def truthy_name_def update_conv')

theorem set_model_accepts_exactly_witness:
  "fst (set_model ndarray_eq ex_empty (Some ''half'') None None (Some ex_half_save) (Some ex_half_load)
          None) = True
   \<and> map_of (models (snd (set_model ndarray_eq ex_empty (Some ''half'') None None (Some ex_half_save)
          (Some ex_half_load) None))) ''half'' =
       Some \<lparr>model = None, preprocess = None, save = Some ex_half_save,
             load = Some ex_half_load, compare = default_compare ndarray_eq\<rparr>
   \<and> set_model ndarray_eq ex_empty (Some ''half'') (Some ex_model) (Some ex_preprocess) None
          (Some ex_half_load) (Some ex_compare) = (False, ex_empty)
   \<and> set_model ndarray_eq ex_empty (Some []) (Some ex_model) (Some ex_preprocess) (Some ex_save)
          (Some ex_load) (Some ex_compare) = (False, ex_empty)"
  using
    set_model_accepts_exactly [of ndarray_eq ex_empty "Some ''half''" None None "Some ex_half_save"
      "Some ex_half_load" None]
    set_model_accepts_exactly [of ndarray_eq ex_empty "Some ''half''" "Some ex_model"
      "Some ex_preprocess" None "Some ex_half_load" "Some ex_compare"]
    set_model_accepts_exactly [of ndarray_eq ex_empty "Some []" "Some ex_model"
      "Some ex_preprocess" "Some ex_save" "Some ex_load" "Some ex_compare"]
  by (auto simp: prod_eq_iff update_conv')

text \<open>
  C4. After \<^verbatim>\<open>set_model\<close> has returned \<^verbatim>\<open>True\<close> for a name, \<^verbatim>\<open>get_model\<close> of that name
  returns the model hook when one was given and the save hook otherwise, \<^verbatim>\<open>del_model\<close>
  of it returns \<^verbatim>\<open>True\<close>, and \<^verbatim>\<open>get_model\<close> after that returns \<^verbatim>\<open>False\<close>. For a name
  that is not a key, \<^verbatim>\<open>get_model\<close> returns \<^verbatim>\<open>False\<close> and \<^verbatim>\<open>del_model\<close> returns \<^verbatim>\<open>False\<close>
  and changes nothing. For any key, \<^verbatim>\<open>del_model\<close> returns \<^verbatim>\<open>True\<close> and \<^verbatim>\<open>get_model\<close>
  then returns \<^verbatim>\<open>False\<close>.
\<close>

theorem registry_get_del:
  "(set_model eq self name m p sv ld c = (True, self') \<longrightarrow>
      (\<exists>n. name = Some n \<and> sv \<noteq> None \<and>
         get_model self' n = (case m of Some f \<Rightarrow> GotModel f | None \<Rightarrow> GotSave sv) \<and>
         fst (del_model self' n) = True \<and>
         get_model (snd (del_model self' n)) n = GotFalse))
   \<and> (k \<notin> fst ` set (models self) \<longrightarrow>
         get_model self k = GotFalse \<and> del_model self k = (False, self))
   \<and> (k \<in> fst ` set (models self) \<longrightarrow>
         fst (del_model self k) = True \<and> get_model (snd (del_model self k)) k = GotFalse)"
proof (intro conjI impI)
  assume "set_model eq self name m p sv ld c = (True, self')"
  then obtain n where n: "name = Some n" and sv: "sv \<noteq> None"
    and self': "self' = self\<lparr>models := AList.update n
                \<lparr>model = m, preprocess = p, save = sv, load = ld,
                 compare = (case c of Some f \<Rightarrow> f | None \<Rightarrow> default_compare eq)\<rparr>
                (models self)\<rparr>"
    by (cases name; cases sv)
       (auto simp: set_model_def truthy_def truthy_name_def split: if_splits)
  have g: "get_model self' n = (case m of Some f \<Rightarrow> GotModel f | None \<Rightarrow> GotSave sv)"
    by (simp add: self' get_model_def update_conv' split: option.splits)
  have d: "fst (del_model self' n) = True"
    by (simp add: self' del_model_def dom_update)
  show "\<exists>n. name = Some n \<and> sv \<noteq> None \<and>
         get_model self' n = (case m of Some f \<Rightarrow> GotModel f | None \<Rightarrow> GotSave sv) \<and>
         fst (del_model self' n) = True \<and>
         get_model (snd (del_model self' n)) n = GotFalse"
    using n sv g d get_after_del by blast
next
  assume "k \<notin> fst ` set (models self)"
  then show "get_model self k = GotFalse"
    by (rule get_model_unknown)
next
  assume "k \<notin> fst ` set (models self)"
  then show "del_model self k = (False, self)"
    by (simp add: del_model_def)
next
  assume "k \<in> fst ` set (models self)"
  then show "fst (del_model self k) = True"
    by (simp add: del_model_def)
next
  show "get_model (snd (del_model self k)) k = GotFalse"
    by (rule get_after_del)
qed

lemma ex_harness_models: "models ex_harness = [(''raw'', ex_raw_entry), (''half'', ex_half_entry)]"
  by (simp add: ex_harness_def ex_raw_only_def ex_empty_def ex_raw_entry_def ex_half_entry_def
      set_model_def init_def truthy_def truthy_name_def)

lemma ex_set_half:
  "set_model ndarray_eq ex_raw_only (Some ''half'') None (Some ex_preprocess)
     (Some ex_half_save) (Some ex_half_load) (Some ex_compare) = (True, ex_harness)"
  by (simp add: ex_harness_def set_model_def truthy_def truthy_name_def)

theorem registry_get_del_witness:
  "get_model ex_harness ''half'' = GotSave (Some ex_half_save)
   \<and> fst (del_model ex_harness ''half'') = True
   \<and> get_model (snd (del_model ex_harness ''half'')) ''half'' = GotFalse
   \<and> get_model ex_harness ''lzma'' = GotFalse
   \<and> del_model ex_harness ''lzma'' = (False, ex_harness)
   \<and> fst (del_model ex_harness ''raw'') = True
   \<and> get_model (snd (del_model ex_harness ''raw'')) ''raw'' = GotFalse"
  using
    registry_get_del [of ndarray_eq ex_raw_only "Some ''half''" None "Some ex_preprocess"
      "Some ex_half_save" "Some ex_half_load" "Some ex_compare" ex_harness "''raw''"]
    registry_get_del [of ndarray_eq ex_harness None None None None None None ex_harness
      "''lzma''"]
    registry_get_del [of ndarray_eq ex_harness None None None None None None ex_harness
      "''raw''"]
  by (simp add: ex_set_half ex_harness_models)

lemma ex_plain_models: "models ex_plain_harness = [(''plain'', ex_plain_entry)]"
  by (simp add: ex_plain_harness_def ex_empty_def ex_plain_entry_def set_model_def init_def
      truthy_def truthy_name_def)

lemma ex_set_plain:
  "set_model ndarray_eq ex_empty (Some ''plain'') None (Some ex_preprocess) (Some ex_save)
     (Some ex_load) None = (True, ex_plain_harness)"
  by (simp add: ex_plain_harness_def set_model_def truthy_def truthy_name_def)

lemma ex_plain_compare: "compare ex_plain_entry ex_image ex_image = Inl ValueError"
  by (simp add: ex_plain_entry_def default_compare_def ndarray_eq_def np_size_def ex_image_def)

lemma ex_plain_run: "benchmark ex_env ex_plain_harness 1 None = Inl ValueError"
  by (simp add: benchmark_def ex_plain_models getitem_def run_model_def ex_plain_harness_def
      ex_empty_def set_model_def init_def truthy_def truthy_name_def np_size_def
      call_preprocess_def ex_plain_entry_def ex_preprocess_def ex_dataset_def ex_image_def
      measure_image_def compress_def call_save_def call_load_def fidelity_def ex_save_def
      ex_load_def default_compare_def ndarray_eq_def initial_state_def empty_metrics_def)

text \<open>
  On numpy arrays the comparison stored for a registration without one is not
  structural equality: for an image of four elements and itself, \<^verbatim>\<open>==\<close> returns an array
  of four booleans, of which line 118 cannot take the truth value, and the run of that
  model raises \<^verbatim>\<open>ValueError\<close> at its first image.
\<close>

theorem default_compare_on_arrays_counterexample:
  "set_model ndarray_eq ex_empty (Some ''plain'') None (Some ex_preprocess) (Some ex_save)
     (Some ex_load) None = (True, ex_plain_harness) \<and>
   map_of (models ex_plain_harness) ''plain'' = Some ex_plain_entry \<and>
   compare ex_plain_entry ex_image ex_image = Inl ValueError \<and>
   benchmark ex_env ex_plain_harness 1 None = Inl ValueError"
  by (simp add: ex_set_plain ex_plain_models ex_plain_compare ex_plain_run)

text \<open>
  C8, as the code has it. In an accepted registration, the stored comparison of a
  registration without a comparison returns for all \<open>x\<close> and \<open>y\<close> what Python's \<^verbatim>\<open>x == y\<close>
  gives for the type of the preprocessed images, which is structural equality only
  where that type's \<^verbatim>\<open>==\<close> is; a comparison that was given is stored as it is.
\<close>

theorem compare_defaults_to_python_eq:
  "set_model eq self name m p sv ld c = (True, self') \<longrightarrow>
     (\<exists>n e. name = Some n \<and> map_of (models self') n = Some e \<and>
        (c = None \<longrightarrow> (\<forall>x y. compare e x y = eq x y)) \<and>
        (\<forall>f. c = Some f \<longrightarrow> compare e = f))"
  by (cases name; cases c)
     (auto simp: set_model_def truthy_def truthy_name_def update_conv' default_compare_def
        split: if_splits)

theorem compare_defaults_to_python_eq_witness:
  "(\<exists>e. map_of (models ex_plain_harness) ''plain'' = Some e \<and>
         (\<forall>x y. compare e x y = ndarray_eq x y))
   \<and> (\<exists>e. map_of (models ex_harness) ''half'' = Some e \<and> compare e = ex_compare)"
  using
    compare_defaults_to_python_eq [of ndarray_eq ex_empty "Some ''plain''" None
      "Some ex_preprocess" "Some ex_save" "Some ex_load" None ex_plain_harness]
    compare_defaults_to_python_eq [of ndarray_eq ex_raw_only "Some ''half''" None
      "Some ex_preprocess" "Some ex_half_save" "Some ex_half_load" "Some ex_compare" ex_harness]
  by (simp add: ex_set_plain ex_set_half)

text \<open>The invariant of the object.\<close>

lemma well_formed_init: "well_formed (fst (init prepared stale))"
  by (simp add: well_formed_def init_def)

lemma well_formed_set_model:
  "well_formed self \<Longrightarrow> well_formed (snd (set_model eq self name m p sv ld c))"
  by (cases name) (auto simp: well_formed_def set_model_def distinct_update)

lemma well_formed_del_model: "well_formed self \<Longrightarrow> well_formed (snd (del_model self k))"
  by (auto simp: well_formed_def del_model_def distinct_delete)

lemma iterations_well_formed:
  "well_formed self \<Longrightarrow>
   iterations self num_images = min (nat num_images) (length (dataset self))"
  by (simp add: well_formed_def iterations_def)


section \<open>The measurement loop\<close>

lemma measure_image_Inr:
  assumes "measure_image ev e img len s = Inr (r, s')"
  shows "\<exists>raw bs loaded same.
     roundtrip e img (temp s) = Inr (raw, Some bs) \<and>
     call_preprocess e raw = Inr loaded \<and>
     compare e img loaded = Inr same \<and>
     len \<noteq> 0 \<and>
     perf_counter ev (ticks s + 1) - perf_counter ev (ticks s) \<noteq> 0 \<and>
     perf_counter ev (ticks s + 3) - perf_counter ev (ticks s + 2) \<noteq> 0 \<and>
     bpsp r = real (length bs * 8) / real len \<and>
     compression_throughput r =
       (real (len * (itemsize raw * 8)) / (8 * 10 ^ 6)) /
       (perf_counter ev (ticks s + 1) - perf_counter ev (ticks s)) \<and>
     decompression_throughput r =
       (real (len * (itemsize raw * 8)) / (8 * 10 ^ 6)) /
       (perf_counter ev (ticks s + 3) - perf_counter ev (ticks s + 2)) \<and>
     s' = (if \<not> same \<and> \<not> lossy_flag s
           then s\<lparr>temp := None, ticks := ticks s + 4, warned := Suc (warned s),
                  displayed := displayed s @
                    fst (try_display (diag_fails ev img loaded) display_steps),
                  lossy_flag := True\<rparr>
           else s\<lparr>temp := None, ticks := ticks s + 4\<rparr>)"
  using assms
  unfolding measure_image_def roundtrip_def Let_def
  by (auto simp: truediv_def getsize_def remove_file_def fidelity_def
      split: sum.splits prod.splits if_splits option.splits)

lemma measure_image_state:
  assumes "measure_image ev e img len s = Inr (r, s')"
  shows "temp s' = None \<and> ticks s' = ticks s + 4"
  using measure_image_Inr [OF assms] by (auto split: if_splits)

lemma measure_loop_Inr:
  assumes "measure_loop ev e xs acc s = Inr (acc', s')"
  shows "\<exists>rs. length rs = length xs \<and>
     bpsp_list acc' = bpsp_list acc @ map bpsp rs \<and>
     compression_throughput_list acc' =
       compression_throughput_list acc @ map compression_throughput rs \<and>
     decompression_throughput_list acc' =
       decompression_throughput_list acc @ map decompression_throughput rs \<and>
     ticks s' = ticks s + 4 * length xs \<and>
     temp s' = (if xs = [] then temp s else None) \<and>
     (\<forall>i<length xs. \<exists>si si'.
        measure_image ev e (fst (xs ! i)) (fst (snd (xs ! i))) si = Inr (rs ! i, si') \<and>
        ticks si = ticks s + 4 * i \<and>
        temp si = (if i = 0 then temp s else None))"
  using assms
proof (induction xs arbitrary: acc s)
  case Nil
  then show ?case by simp
next
  case (Cons x xs)
  obtain img len k where x: "x = (img, len, k)" by (cases x) auto
  from Cons.prems obtain r s1 where
    mi: "measure_image ev e img len s = Inr (r, s1)" and
    rest: "measure_loop ev e xs (append_row acc r) s1 = Inr (acc', s')"
    by (auto simp: x split: sum.splits)
  have s1: "temp s1 = None" "ticks s1 = ticks s + 4"
    using measure_image_state [OF mi] by simp_all
  from Cons.IH [OF rest] obtain rs where
    len: "length rs = length xs" and
    b: "bpsp_list acc' = bpsp_list (append_row acc r) @ map bpsp rs" and
    c: "compression_throughput_list acc' =
          compression_throughput_list (append_row acc r) @ map compression_throughput rs" and
    d: "decompression_throughput_list acc' =
          decompression_throughput_list (append_row acc r) @ map decompression_throughput rs" and
    t: "ticks s' = ticks s1 + 4 * length xs" and
    f: "temp s' = (if xs = [] then temp s1 else None)" and
    it: "\<forall>i<length xs. \<exists>si si'.
        measure_image ev e (fst (xs ! i)) (fst (snd (xs ! i))) si = Inr (rs ! i, si') \<and>
        ticks si = ticks s1 + 4 * i \<and>
        temp si = (if i = 0 then temp s1 else None)"
    by blast
  have all: "\<forall>i<length (x # xs). \<exists>si si'.
        measure_image ev e (fst ((x # xs) ! i)) (fst (snd ((x # xs) ! i))) si =
          Inr ((r # rs) ! i, si') \<and>
        ticks si = ticks s + 4 * i \<and>
        temp si = (if i = 0 then temp s else None)"
  proof (intro allI impI)
    fix i assume i: "i < length (x # xs)"
    show "\<exists>si si'.
        measure_image ev e (fst ((x # xs) ! i)) (fst (snd ((x # xs) ! i))) si =
          Inr ((r # rs) ! i, si') \<and>
        ticks si = ticks s + 4 * i \<and>
        temp si = (if i = 0 then temp s else None)"
    proof (cases i)
      case 0
      then show ?thesis using mi by (auto simp: x)
    next
      case (Suc j)
      with i have "j < length xs" by simp
      with it obtain si si' where
        "measure_image ev e (fst (xs ! j)) (fst (snd (xs ! j))) si = Inr (rs ! j, si')"
        "ticks si = ticks s1 + 4 * j" "temp si = (if j = 0 then temp s1 else None)"
        by blast
      then show ?thesis using s1 Suc by auto
    qed
  qed
  show ?case
    apply (rule exI [of _ "r # rs"])
    using len b c d t f s1 all by (simp add: append_row_def)
qed


lemma measure_loop_rows:
  assumes "measure_loop ev e xs acc s = Inr (acc', s')"
  shows "length (bpsp_list acc') = length (bpsp_list acc) + length xs \<and>
     length (compression_throughput_list acc') =
       length (compression_throughput_list acc) + length xs \<and>
     length (decompression_throughput_list acc') =
       length (decompression_throughput_list acc) + length xs \<and>
     ticks s' = ticks s + 4 * length xs \<and>
     temp s' = (if xs = [] then temp s else None) \<and>
     (\<forall>i<length xs. \<exists>raw bs.
        roundtrip e (fst (xs ! i)) (if i = 0 then temp s else None) = Inr (raw, Some bs) \<and>
        fst (snd (xs ! i)) \<noteq> 0 \<and>
        bpsp_list acc' ! (length (bpsp_list acc) + i) =
          real (length bs * 8) / real (fst (snd (xs ! i))) \<and>
        compression_throughput_list acc' ! (length (compression_throughput_list acc) + i) =
          (real (fst (snd (xs ! i)) * (itemsize raw * 8)) / (8 * 10 ^ 6)) /
          (perf_counter ev (ticks s + 4 * i + 1) - perf_counter ev (ticks s + 4 * i)) \<and>
        decompression_throughput_list acc' ! (length (decompression_throughput_list acc) + i) =
          (real (fst (snd (xs ! i)) * (itemsize raw * 8)) / (8 * 10 ^ 6)) /
          (perf_counter ev (ticks s + 4 * i + 3) - perf_counter ev (ticks s + 4 * i + 2)))"
proof -
  from measure_loop_Inr [OF assms] obtain rs where
    len: "length rs = length xs" and
    b: "bpsp_list acc' = bpsp_list acc @ map bpsp rs" and
    c: "compression_throughput_list acc' =
          compression_throughput_list acc @ map compression_throughput rs" and
    d: "decompression_throughput_list acc' =
          decompression_throughput_list acc @ map decompression_throughput rs" and
    t: "ticks s' = ticks s + 4 * length xs" and
    f: "temp s' = (if xs = [] then temp s else None)" and
    it: "\<forall>i<length xs. \<exists>si si'.
        measure_image ev e (fst (xs ! i)) (fst (snd (xs ! i))) si = Inr (rs ! i, si') \<and>
        ticks si = ticks s + 4 * i \<and>
        temp si = (if i = 0 then temp s else None)"
    by blast
  have rows: "\<exists>raw bs.
        roundtrip e (fst (xs ! i)) (if i = 0 then temp s else None) = Inr (raw, Some bs) \<and>
        fst (snd (xs ! i)) \<noteq> 0 \<and>
        bpsp_list acc' ! (length (bpsp_list acc) + i) =
          real (length bs * 8) / real (fst (snd (xs ! i))) \<and>
        compression_throughput_list acc' ! (length (compression_throughput_list acc) + i) =
          (real (fst (snd (xs ! i)) * (itemsize raw * 8)) / (8 * 10 ^ 6)) /
          (perf_counter ev (ticks s + 4 * i + 1) - perf_counter ev (ticks s + 4 * i)) \<and>
        decompression_throughput_list acc' ! (length (decompression_throughput_list acc) + i) =
          (real (fst (snd (xs ! i)) * (itemsize raw * 8)) / (8 * 10 ^ 6)) /
          (perf_counter ev (ticks s + 4 * i + 3) - perf_counter ev (ticks s + 4 * i + 2))"
    if i: "i < length xs" for i
  proof -
    from it i obtain si si' where
      mi: "measure_image ev e (fst (xs ! i)) (fst (snd (xs ! i))) si = Inr (rs ! i, si')" and
      ti: "ticks si = ticks s + 4 * i" and
      fi: "temp si = (if i = 0 then temp s else None)"
      by blast
    from measure_image_Inr [OF mi] obtain raw bs where
      "roundtrip e (fst (xs ! i)) (temp si) = Inr (raw, Some bs)"
      "fst (snd (xs ! i)) \<noteq> 0"
      "bpsp (rs ! i) = real (length bs * 8) / real (fst (snd (xs ! i)))"
      "compression_throughput (rs ! i) =
         (real (fst (snd (xs ! i)) * (itemsize raw * 8)) / (8 * 10 ^ 6)) /
         (perf_counter ev (ticks si + 1) - perf_counter ev (ticks si))"
      "decompression_throughput (rs ! i) =
         (real (fst (snd (xs ! i)) * (itemsize raw * 8)) / (8 * 10 ^ 6)) /
         (perf_counter ev (ticks si + 3) - perf_counter ev (ticks si + 2))"
      by blast
    then show ?thesis
      using i len by (intro exI [of _ raw] exI [of _ bs]) (simp add: b c d ti fi nth_append)
  qed
  show ?thesis
    using len t f rows by (simp add: b c d)
qed

lemma map_hook_Inr:
  "map_hook f xs = Inr ys \<Longrightarrow> length ys = length xs \<and> (\<forall>i<length xs. f (xs ! i) = Inr (ys ! i))"
proof (induction xs arbitrary: ys)
  case Nil
  then show ?case by simp
next
  case (Cons x xs)
  then obtain y ys' where y: "f x = Inr y" and ys': "map_hook f xs = Inr ys'" and ys: "ys = y # ys'"
    by (auto split: sum.splits)
  from Cons.IH [OF ys'] show ?case
    using y ys by (auto simp: nth_Cons split: nat.splits)
qed

lemma nth_triples:
  "i < length (zip ds (zip ls [0..<n])) \<Longrightarrow> zip ds (zip ls [0..<n]) ! i = (ds ! i, ls ! i, i)"
  by simp

lemma run_model_rows:
  assumes "run_model ev self num_images e s = Inr (m, s')"
  shows "\<exists>ds. map_hook (call_preprocess e) (dataset self) = Inr ds \<and>
     length (bpsp_list m) = iterations self num_images \<and>
     length (compression_throughput_list m) = iterations self num_images \<and>
     length (decompression_throughput_list m) = iterations self num_images \<and>
     ticks s' = ticks s + 4 * iterations self num_images \<and>
     temp s' = (if iterations self num_images = 0 then temp s else None) \<and>
     (\<forall>i<iterations self num_images. \<exists>raw bs.
        roundtrip e (ds ! i) (if i = 0 then temp s else None) = Inr (raw, Some bs) \<and>
        lens self ! i \<noteq> 0 \<and>
        bpsp_list m ! i = real (length bs * 8) / real (lens self ! i) \<and>
        compression_throughput_list m ! i =
          (real (lens self ! i * (itemsize raw * 8)) / (8 * 10 ^ 6)) /
          (perf_counter ev (ticks s + 4 * i + 1) - perf_counter ev (ticks s + 4 * i)) \<and>
        decompression_throughput_list m ! i =
          (real (lens self ! i * (itemsize raw * 8)) / (8 * 10 ^ 6)) /
          (perf_counter ev (ticks s + 4 * i + 3) - perf_counter ev (ticks s + 4 * i + 2)))"
proof -
  from assms obtain ds where
    ds: "map_hook (call_preprocess e) (dataset self) = Inr ds" and
    loop: "measure_loop ev e (zip ds (zip (lens self) [0..<nat num_images])) empty_metrics s =
             Inr (m, s')"
    by (auto simp: run_model_def split: sum.splits)
  let ?xs = "zip ds (zip (lens self) [0..<nat num_images])"
  have n: "length ?xs = iterations self num_images"
    using map_hook_Inr [OF ds] by (simp add: iterations_def)
  have nth: "?xs ! i = (ds ! i, lens self ! i, i)" if "i < iterations self num_images" for i
    using that n by (simp only: nth_triples)
  have e: "(?xs = []) = (iterations self num_images = 0)"
    using n by (metis length_0_conv)
  from measure_loop_rows [OF loop] show ?thesis
    apply (intro exI [of _ ds])
    apply (simp only: n e)
    apply (simp add: ds empty_metrics_def nth)
    done
qed


lemma run_models_other:
  assumes "run_models ev self num_images names res s = Inr (res', s')" and "k \<notin> set names"
  shows "map_of (all_bpsp res') k = map_of (all_bpsp res) k \<and>
     map_of (all_throughput res') k = map_of (all_throughput res) k \<and>
     map_of (all_dthroughput res') k = map_of (all_dthroughput res) k"
  using assms
proof (induction names arbitrary: res s)
  case Nil
  then show ?case by simp
next
  case (Cons name rest)
  from Cons.prems(1) obtain m :: metrics and s1 where
    "run_models ev self num_images rest
       (res\<lparr>all_bpsp := AList.update name (bpsp_list m) (all_bpsp res),
            all_throughput :=
              AList.update name (compression_throughput_list m) (all_throughput res),
            all_dthroughput :=
              AList.update name (decompression_throughput_list m) (all_dthroughput res)\<rparr>)
       s1 = Inr (res', s')"
    by (auto split: sum.splits)
  from Cons.IH [OF this] Cons.prems(2) show ?case
    by (simp add: update_conv')
qed

lemma run_models_Inr:
  assumes "run_models ev self num_images names res s = Inr (res', s')" and "distinct names"
  shows "ticks s' = ticks s + 4 * (length names * iterations self num_images) \<and>
     temp s' = (if names = [] \<or> iterations self num_images = 0 then temp s else None) \<and>
     (\<forall>k<length names. \<exists>e m sk sk'.
        map_of (models self) (names ! k) = Some e \<and>
        run_model ev self num_images e sk = Inr (m, sk') \<and>
        ticks sk = ticks s + 4 * (k * iterations self num_images) \<and>
        temp sk = (if k = 0 \<or> iterations self num_images = 0 then temp s else None) \<and>
        map_of (all_bpsp res') (names ! k) = Some (bpsp_list m) \<and>
        map_of (all_throughput res') (names ! k) = Some (compression_throughput_list m) \<and>
        map_of (all_dthroughput res') (names ! k) = Some (decompression_throughput_list m))"
  using assms
proof (induction names arbitrary: res s)
  case Nil
  then show ?case by simp
next
  case (Cons name rest)
  let ?c = "iterations self num_images"
  from Cons.prems(1) obtain e m s1 where
    e: "map_of (models self) name = Some e" and
    rm: "run_model ev self num_images e s = Inr (m, s1)" and
    rest: "run_models ev self num_images rest
       (res\<lparr>all_bpsp := AList.update name (bpsp_list m) (all_bpsp res),
            all_throughput :=
              AList.update name (compression_throughput_list m) (all_throughput res),
            all_dthroughput :=
              AList.update name (decompression_throughput_list m) (all_dthroughput res)\<rparr>)
       s1 = Inr (res', s')"
    by (auto simp: getitem_def split: sum.splits option.splits)
  from run_model_rows [OF rm] have
    s1: "ticks s1 = ticks s + 4 * ?c" "temp s1 = (if ?c = 0 then temp s else None)"
    by auto
  from Cons.prems(2) have d: "distinct rest" and notin: "name \<notin> set rest"
    by simp_all
  from run_models_other [OF rest notin] have here:
    "map_of (all_bpsp res') name = Some (bpsp_list m)"
    "map_of (all_throughput res') name = Some (compression_throughput_list m)"
    "map_of (all_dthroughput res') name = Some (decompression_throughput_list m)"
    by (simp_all add: update_conv')
  from Cons.IH [OF rest d] have
    t: "ticks s' = ticks s1 + 4 * (length rest * ?c)" and
    f: "temp s' = (if rest = [] \<or> ?c = 0 then temp s1 else None)" and
    it: "\<forall>k<length rest. \<exists>e m sk sk'.
        map_of (models self) (rest ! k) = Some e \<and>
        run_model ev self num_images e sk = Inr (m, sk') \<and>
        ticks sk = ticks s1 + 4 * (k * ?c) \<and>
        temp sk = (if k = 0 \<or> ?c = 0 then temp s1 else None) \<and>
        map_of (all_bpsp res') (rest ! k) = Some (bpsp_list m) \<and>
        map_of (all_throughput res') (rest ! k) = Some (compression_throughput_list m) \<and>
        map_of (all_dthroughput res') (rest ! k) = Some (decompression_throughput_list m)"
    by blast+
  have all: "\<exists>e m sk sk'.
        map_of (models self) ((name # rest) ! k) = Some e \<and>
        run_model ev self num_images e sk = Inr (m, sk') \<and>
        ticks sk = ticks s + 4 * (k * ?c) \<and>
        temp sk = (if k = 0 \<or> ?c = 0 then temp s else None) \<and>
        map_of (all_bpsp res') ((name # rest) ! k) = Some (bpsp_list m) \<and>
        map_of (all_throughput res') ((name # rest) ! k) =
          Some (compression_throughput_list m) \<and>
        map_of (all_dthroughput res') ((name # rest) ! k) =
          Some (decompression_throughput_list m)"
    if k: "k < length (name # rest)" for k
  proof (cases k)
    case 0
    then show ?thesis using e rm here by auto
  next
    case (Suc j)
    with k have "j < length rest" by simp
    with it obtain e' m' sk sk' where
      "map_of (models self) (rest ! j) = Some e'"
      "run_model ev self num_images e' sk = Inr (m', sk')"
      "ticks sk = ticks s1 + 4 * (j * ?c)"
      "temp sk = (if j = 0 \<or> ?c = 0 then temp s1 else None)"
      "map_of (all_bpsp res') (rest ! j) = Some (bpsp_list m')"
      "map_of (all_throughput res') (rest ! j) = Some (compression_throughput_list m')"
      "map_of (all_dthroughput res') (rest ! j) = Some (decompression_throughput_list m')"
      by blast
    then show ?thesis
      using Suc s1
      by (intro exI [of _ e'] exI [of _ m'] exI [of _ sk] exI [of _ sk'])
         (simp add: algebra_simps)
  qed
  show ?case
    using t f s1 all by (simp add: algebra_simps)
qed

lemma benchmark_rows:
  assumes b: "benchmark ev self num_images f = Inr (out, res, s)"
      and d: "distinct (map fst (models self))"
      and k: "k < length (models self)"
      and nm: "models self ! k = (name, e)"
      and i: "i < iterations self num_images"
  shows "\<exists>ds raw bs bps cts dts.
     map_hook (call_preprocess e) (dataset self) = Inr ds \<and>
     roundtrip e (ds ! i) (if k = 0 \<and> i = 0 then f else None) = Inr (raw, Some bs) \<and>
     map_of (all_bpsp res) name = Some bps \<and>
     map_of (all_throughput res) name = Some cts \<and>
     map_of (all_dthroughput res) name = Some dts \<and>
     length bps = iterations self num_images \<and>
     length cts = iterations self num_images \<and>
     length dts = iterations self num_images \<and>
     lens self ! i \<noteq> 0 \<and>
     bps ! i = real (length bs * 8) / real (lens self ! i) \<and>
     cts ! i =
       (real (lens self ! i * (itemsize raw * 8)) / (8 * 10 ^ 6)) /
       (perf_counter ev (4 * (k * iterations self num_images + i) + 1) -
        perf_counter ev (4 * (k * iterations self num_images + i))) \<and>
     dts ! i =
       (real (lens self ! i * (itemsize raw * 8)) / (8 * 10 ^ 6)) /
       (perf_counter ev (4 * (k * iterations self num_images + i) + 3) -
        perf_counter ev (4 * (k * iterations self num_images + i) + 2))"
proof -
  let ?c = "iterations self num_images"
  from b obtain s' where
    run: "run_models ev self num_images (map fst (models self)) empty_results (initial_state f) =
            Inr (res, s')"
    by (auto simp: benchmark_def split: sum.splits)
  from k have k': "k < length (map fst (models self))" by simp
  from k nm have name: "map fst (models self) ! k = name" by simp
  from k nm have "(name, e) \<in> set (models self)" by (metis nth_mem)
  with d have e: "map_of (models self) name = Some e" by simp
  from run_models_Inr [OF run d] k' name obtain e' m sk sk' where
    e': "map_of (models self) name = Some e'" and
    rm: "run_model ev self num_images e' sk = Inr (m, sk')" and
    tk: "ticks sk = ticks (initial_state f) + 4 * (k * ?c)" and
    fk: "temp sk = (if k = 0 \<or> ?c = 0 then temp (initial_state f) else None)" and
    look: "map_of (all_bpsp res) name = Some (bpsp_list m)"
      "map_of (all_throughput res) name = Some (compression_throughput_list m)"
      "map_of (all_dthroughput res) name = Some (decompression_throughput_list m)"
    by blast
  from e e' have ee: "e' = e" by simp
  from i have c0: "?c \<noteq> 0" by simp
  have tk': "ticks sk = 4 * (k * ?c)" using tk by (simp add: initial_state_def)
  have fk': "(if i = 0 then temp sk else None) = (if k = 0 \<and> i = 0 then f else None)"
    using fk c0 by (simp add: initial_state_def)
  from run_model_rows [OF rm] i obtain ds raw bs where
    "map_hook (call_preprocess e) (dataset self) = Inr ds"
    "length (bpsp_list m) = ?c" "length (compression_throughput_list m) = ?c"
    "length (decompression_throughput_list m) = ?c"
    "roundtrip e (ds ! i) (if i = 0 then temp sk else None) = Inr (raw, Some bs)"
    "lens self ! i \<noteq> 0"
    "bpsp_list m ! i = real (length bs * 8) / real (lens self ! i)"
    "compression_throughput_list m ! i =
          (real (lens self ! i * (itemsize raw * 8)) / (8 * 10 ^ 6)) /
          (perf_counter ev (ticks sk + 4 * i + 1) - perf_counter ev (ticks sk + 4 * i))"
    "decompression_throughput_list m ! i =
          (real (lens self ! i * (itemsize raw * 8)) / (8 * 10 ^ 6)) /
          (perf_counter ev (ticks sk + 4 * i + 3) - perf_counter ev (ticks sk + 4 * i + 2))"
    unfolding ee by blast
  then show ?thesis
    using look unfolding fk' tk'
    by (intro exI [of _ ds] exI [of _ raw] exI [of _ bs] exI [of _ "bpsp_list m"]
          exI [of _ "compression_throughput_list m"]
          exI [of _ "decompression_throughput_list m"])
       (simp add: algebra_simps)
qed

section \<open>The small harness, run\<close>

lemmas ex_hooks =
  ex_image_def ex_dataset_def ex_preprocess_def ex_model_def ex_save_def ex_load_def
  ex_half_save_def ex_half_load_def ex_compare_def ex_raw_entry_def ex_half_entry_def

lemmas step_defs =
  measure_image_def compress_def call_save_def call_load_def call_preprocess_def fidelity_def
  getsize_def remove_file_def truediv_def display_steps_def

lemma ex_harness_eq:
  "ex_harness =
     \<lparr>models = [(''raw'', ex_raw_entry), (''half'', ex_half_entry)], dataset = ex_dataset,
      lens = [4, 4, 4]\<rparr>"
  by (simp add: ex_harness_def ex_raw_only_def ex_empty_def ex_raw_entry_def ex_half_entry_def
      set_model_def init_def truthy_def truthy_name_def ex_dataset_def ex_image_def np_size_def)

lemma ex_preprocess_raw: "map_hook (call_preprocess ex_raw_entry) ex_dataset = Inr ex_dataset"
  by (simp add: call_preprocess_def ex_hooks)

lemma ex_preprocess_half: "map_hook (call_preprocess ex_half_entry) ex_dataset = Inr ex_dataset"
  by (simp add: call_preprocess_def ex_hooks)


lemma ex_run_raw:
  "run_model ex_env ex_harness 2 ex_raw_entry
     \<lparr>temp = None, ticks = 0, lossy_flag = False, warned = 0, displayed = []\<rparr> =
     Inr (\<lparr>bpsp_list = [8, 8], compression_throughput_list = [4 / 10 ^ 6, 4 / 10 ^ 6],
            decompression_throughput_list = [4 / 10 ^ 6, 4 / 10 ^ 6]\<rparr>,
          \<lparr>temp = None, ticks = 8, lossy_flag = False, warned = 0, displayed = []\<rparr>)"
  apply (simp add: run_model_def ex_harness_eq ex_preprocess_raw)
  by (simp add: upt_conv_Cons step_defs ex_hooks ex_env_def initial_state_def
      empty_metrics_def append_row_def)

lemma ex_run_half:
  "run_model ex_env ex_harness 2 ex_half_entry
     \<lparr>temp = None, ticks = 8, lossy_flag = False, warned = 0, displayed = []\<rparr> =
     Inr (\<lparr>bpsp_list = [4, 4], compression_throughput_list = [4 / 10 ^ 6, 4 / 10 ^ 6],
            decompression_throughput_list = [4 / 10 ^ 6, 4 / 10 ^ 6]\<rparr>,
          \<lparr>temp = None, ticks = 16, lossy_flag = True, warned = 1, displayed = []\<rparr>)"
  apply (simp add: run_model_def ex_harness_eq ex_preprocess_half)
  by (simp add: upt_conv_Cons step_defs ex_hooks ex_env_def initial_state_def
      empty_metrics_def append_row_def)

lemma ex_benchmark:
  "benchmark ex_env ex_harness 2 None =
     Inr ([RateLine ''raw'' 8, ThroughputLine ''raw'' (4 / 10 ^ 6),
           DThroughputLine ''raw'' (4 / 10 ^ 6), RateLine ''half'' 4,
           ThroughputLine ''half'' (4 / 10 ^ 6), DThroughputLine ''half'' (4 / 10 ^ 6)],
          ex_results,
          \<lparr>temp = None, ticks = 16, lossy_flag = True, warned = 1, displayed = []\<rparr>)"
  apply (simp add: benchmark_def)
  apply (simp add: ex_harness_models getitem_def ex_run_raw ex_run_half initial_state_def)
  apply (simp add: ex_results_def empty_results_def getitem_def mean_def truediv_def)
  done

section \<open>The recorded metrics\<close>

lemma ex_well_formed: "well_formed ex_harness"
  unfolding ex_harness_def ex_raw_only_def ex_empty_def
  by (intro well_formed_set_model well_formed_init)

lemma ex_iterations: "iterations ex_harness 2 = 2"
  by (simp add: iterations_def ex_harness_eq ex_dataset_def)

lemma ex_half_roundtrip:
  "roundtrip ex_half_entry img f = Inr (raw, Some bs) \<Longrightarrow> bs = [0, 0] \<and> itemsize raw = 1"
  by (auto simp: roundtrip_def compress_def call_save_def call_load_def ex_hooks)

text \<open>
  C1. Let a run of \<^verbatim>\<open>benchmark\<close> on a well-formed object complete, and let image \<open>i\<close> be
  measured for the \<open>k\<close>-th model. The iteration finds the slot empty, or as the run found
  it when it is the first of the run; compressing and loading there leaves an artifact
  \<open>bs\<close> in the slot, which is what line 134 measures. The \<open>i\<close>-th number recorded for the
  model in \<^verbatim>\<open>all_bpsp\<close> is \<open>8 * B / N\<close> for \<open>B\<close> the length of \<open>bs\<close> and \<open>N\<close> the cached
  element count of the image, the product of its shape. When the artifact has \<open>N / 2\<close>
  bytes the number is 4.
\<close>

theorem bpsp_is_bits_per_element:
  assumes "benchmark ev self num_images f = Inr (out, res, s)"
      and "well_formed self"
      and "k < length (models self)"
      and "models self ! k = (name, e)"
      and "i < iterations self num_images"
  shows "\<exists>ds raw bs bps.
     map_hook (call_preprocess e) (dataset self) = Inr ds \<and>
     roundtrip e (ds ! i) (if k = 0 \<and> i = 0 then f else None) = Inr (raw, Some bs) \<and>
     map_of (all_bpsp res) name = Some bps \<and>
     i < length bps \<and>
     lens self ! i = np_size (dataset self ! i) \<and>
     bps ! i = 8 * real (length bs) / real (np_size (dataset self ! i)) \<and>
     (2 * length bs = np_size (dataset self ! i) \<longrightarrow> bps ! i = 4)"
proof -
  from assms(2) have d: "distinct (map fst (models self))"
    and l: "lens self = map np_size (dataset self)"
    by (simp_all add: well_formed_def)
  from assms(5) have i: "i < length (dataset self)"
    by (simp add: iterations_def)
  have n: "lens self ! i = np_size (dataset self ! i)"
    using l i by simp
  from benchmark_rows [OF assms(1) d assms(3) assms(4) assms(5)] obtain ds raw bs bps where
    ds: "map_hook (call_preprocess e) (dataset self) = Inr ds" and
    rt: "roundtrip e (ds ! i) (if k = 0 \<and> i = 0 then f else None) = Inr (raw, Some bs)" and
    look: "map_of (all_bpsp res) name = Some bps" and
    len: "length bps = iterations self num_images" and
    nz: "lens self ! i \<noteq> 0" and
    b: "bps ! i = real (length bs * 8) / real (lens self ! i)"
    by blast
  have b8: "bps ! i = 8 * real (length bs) / real (np_size (dataset self ! i))"
    using b n by simp
  have half: "bps ! i = 4" if "2 * length bs = np_size (dataset self ! i)"
  proof -
    have "real (np_size (dataset self ! i)) = 2 * real (length bs)"
      using that by (metis of_nat_mult of_nat_numeral)
    moreover have "real (length bs) \<noteq> 0"
      using that nz n by auto
    ultimately show ?thesis
      using b8 by simp
  qed
  show ?thesis
    using ds rt look len assms(5) n b8 half by auto
qed

theorem bpsp_is_bits_per_element_witness:
  "well_formed ex_harness \<and>
   models ex_harness ! 1 = (''half'', ex_half_entry) \<and>
   (\<exists>out s. benchmark ex_env ex_harness 2 None = Inr (out, ex_results, s)) \<and>
   (\<exists>ds raw bs bps.
      map_hook (call_preprocess ex_half_entry) (dataset ex_harness) = Inr ds \<and>
      roundtrip ex_half_entry (ds ! 1) None = Inr (raw, Some bs) \<and>
      map_of (all_bpsp ex_results) ''half'' = Some bps \<and>
      np_size (dataset ex_harness ! 1) = 4 \<and>
      length bs = 2 \<and>
      bps ! 1 = 4)"
proof -
  have k: "1 < length (models ex_harness)"
    by (simp add: ex_harness_models)
  have nm: "models ex_harness ! 1 = (''half'', ex_half_entry)"
    by (simp add: ex_harness_models)
  have i: "1 < iterations ex_harness 2"
    by (simp add: ex_iterations)
  have n: "np_size (dataset ex_harness ! 1) = 4"
    by (simp add: ex_harness_eq ex_dataset_def ex_image_def np_size_def)
  from bpsp_is_bits_per_element [OF ex_benchmark ex_well_formed k nm i]
  obtain ds raw bs bps where
    c: "map_hook (call_preprocess ex_half_entry) (dataset ex_harness) = Inr ds"
      "roundtrip ex_half_entry (ds ! 1) None = Inr (raw, Some bs)"
      "map_of (all_bpsp ex_results) ''half'' = Some bps"
      "2 * length bs = np_size (dataset ex_harness ! 1) \<longrightarrow> bps ! 1 = 4"
    by auto
  from ex_half_roundtrip [OF c(2)] have bs: "length bs = 2"
    by simp
  with c(4) n have "bps ! 1 = 4"
    by simp
  with c bs n nm ex_well_formed ex_benchmark show ?thesis
    by blast
qed

text \<open>
  C2. In the same situation, the \<open>i\<close>-th numbers recorded for the model in
  \<^verbatim>\<open>all_throughput\<close> and \<^verbatim>\<open>all_dthroughput\<close> are \<open>(N * pixel_bits / (8 * 10^6)) / t\<close>, where
  \<open>N\<close> is the cached element count of the image, \<open>pixel_bits\<close> is 8 times the item size
  of the array the load hook returned (not of its preprocessed form), and \<open>t\<close> is the
  difference of the two clock readings around the compression phase, respectively the
  decompression phase, of that iteration: the run reads the clock four times in each
  iteration.
\<close>

theorem throughput_is_megabytes_per_second:
  assumes "benchmark ev self num_images f = Inr (out, res, s)"
      and "well_formed self"
      and "k < length (models self)"
      and "models self ! k = (name, e)"
      and "i < iterations self num_images"
  shows "\<exists>ds raw bs cts dts.
     map_hook (call_preprocess e) (dataset self) = Inr ds \<and>
     roundtrip e (ds ! i) (if k = 0 \<and> i = 0 then f else None) = Inr (raw, Some bs) \<and>
     map_of (all_throughput res) name = Some cts \<and>
     map_of (all_dthroughput res) name = Some dts \<and>
     i < length cts \<and> i < length dts \<and>
     cts ! i =
       (real (np_size (dataset self ! i)) * real (8 * itemsize raw) / (8 * 10 ^ 6)) /
       (perf_counter ev (4 * (k * iterations self num_images + i) + 1) -
        perf_counter ev (4 * (k * iterations self num_images + i))) \<and>
     dts ! i =
       (real (np_size (dataset self ! i)) * real (8 * itemsize raw) / (8 * 10 ^ 6)) /
       (perf_counter ev (4 * (k * iterations self num_images + i) + 3) -
        perf_counter ev (4 * (k * iterations self num_images + i) + 2))"
proof -
  from assms(2) have d: "distinct (map fst (models self))"
    and l: "lens self = map np_size (dataset self)"
    by (simp_all add: well_formed_def)
  from assms(5) have i: "i < length (dataset self)"
    by (simp add: iterations_def)
  have n: "lens self ! i = np_size (dataset self ! i)"
    using l i by simp
  from benchmark_rows [OF assms(1) d assms(3) assms(4) assms(5)] obtain ds raw bs cts dts where
    ds: "map_hook (call_preprocess e) (dataset self) = Inr ds" and
    rt: "roundtrip e (ds ! i) (if k = 0 \<and> i = 0 then f else None) = Inr (raw, Some bs)" and
    look: "map_of (all_throughput res) name = Some cts"
      "map_of (all_dthroughput res) name = Some dts" and
    len: "length cts = iterations self num_images" "length dts = iterations self num_images" and
    c: "cts ! i =
       (real (lens self ! i * (itemsize raw * 8)) / (8 * 10 ^ 6)) /
       (perf_counter ev (4 * (k * iterations self num_images + i) + 1) -
        perf_counter ev (4 * (k * iterations self num_images + i)))" and
    dd: "dts ! i =
       (real (lens self ! i * (itemsize raw * 8)) / (8 * 10 ^ 6)) /
       (perf_counter ev (4 * (k * iterations self num_images + i) + 3) -
        perf_counter ev (4 * (k * iterations self num_images + i) + 2))"
    by blast
  have m: "real (lens self ! i * (itemsize raw * 8)) =
      real (np_size (dataset self ! i)) * real (8 * itemsize raw)"
    using n by (simp add: mult.commute)
  show ?thesis
    using ds rt look len assms(5) c dd unfolding m
    by (intro exI [of _ ds] exI [of _ raw] exI [of _ bs] exI [of _ cts] exI [of _ dts]) simp
qed

theorem throughput_is_megabytes_per_second_witness:
  "well_formed ex_harness \<and>
   models ex_harness ! 1 = (''half'', ex_half_entry) \<and>
   (\<exists>out s. benchmark ex_env ex_harness 2 None = Inr (out, ex_results, s)) \<and>
   (\<exists>cts dts.
      map_of (all_throughput ex_results) ''half'' = Some cts \<and>
      map_of (all_dthroughput ex_results) ''half'' = Some dts \<and>
      cts ! 1 = (4 * 8 / (8 * 10 ^ 6)) / (perf_counter ex_env 13 - perf_counter ex_env 12) \<and>
      dts ! 1 = (4 * 8 / (8 * 10 ^ 6)) / (perf_counter ex_env 15 - perf_counter ex_env 14))"
proof -
  have k: "1 < length (models ex_harness)"
    by (simp add: ex_harness_models)
  have nm: "models ex_harness ! 1 = (''half'', ex_half_entry)"
    by (simp add: ex_harness_models)
  have i: "1 < iterations ex_harness 2"
    by (simp add: ex_iterations)
  have n: "np_size (dataset ex_harness ! 1) = 4"
    by (simp add: ex_harness_eq ex_dataset_def ex_image_def np_size_def)
  from throughput_is_megabytes_per_second [OF ex_benchmark ex_well_formed k nm i]
  obtain ds raw bs cts dts where
    c: "roundtrip ex_half_entry (ds ! 1) None = Inr (raw, Some bs)"
      "map_of (all_throughput ex_results) ''half'' = Some cts"
      "map_of (all_dthroughput ex_results) ''half'' = Some dts"
      "cts ! 1 = (real (np_size (dataset ex_harness ! 1)) * real (8 * itemsize raw) / (8 * 10 ^ 6)) /
         (perf_counter ex_env (4 * (1 * iterations ex_harness 2 + 1) + 1) -
          perf_counter ex_env (4 * (1 * iterations ex_harness 2 + 1)))"
      "dts ! 1 = (real (np_size (dataset ex_harness ! 1)) * real (8 * itemsize raw) / (8 * 10 ^ 6)) /
         (perf_counter ex_env (4 * (1 * iterations ex_harness 2 + 1) + 3) -
          perf_counter ex_env (4 * (1 * iterations ex_harness 2 + 1) + 2))"
    by auto
  from ex_half_roundtrip [OF c(1)] have raw: "itemsize raw = 1"
    by simp
  have "cts ! 1 = (4 * 8 / (8 * 10 ^ 6)) / (perf_counter ex_env 13 - perf_counter ex_env 12)"
    "dts ! 1 = (4 * 8 / (8 * 10 ^ 6)) / (perf_counter ex_env 15 - perf_counter ex_env 14)"
    using c(4,5) n raw by (simp_all add: ex_iterations ex_env_def)
  with c(2,3) nm ex_well_formed ex_benchmark show ?thesis
    by blast
qed

section \<open>The lossy flag\<close>

lemma measure_loop_preserves:
  assumes step: "\<And>img len s r s'. P s \<Longrightarrow> measure_image ev e img len s = Inr (r, s') \<Longrightarrow> P s'"
      and "measure_loop ev e xs acc s = Inr (acc', s')" and "P s"
  shows "P s'"
  using assms(2,3)
proof (induction xs arbitrary: acc s)
  case Nil
  then show ?case by simp
next
  case (Cons x xs)
  obtain img len k where x: "x = (img, len, k)" by (cases x) auto
  from Cons.prems(1) obtain r s1 where
    mi: "measure_image ev e img len s = Inr (r, s1)" and
    rest: "measure_loop ev e xs (append_row acc r) s1 = Inr (acc', s')"
    by (auto simp: x split: sum.splits)
  from step [OF Cons.prems(2) mi] have "P s1" .
  from Cons.IH [OF rest this] show ?case .
qed

lemma run_model_preserves:
  assumes step: "\<And>img len s r s'. P s \<Longrightarrow> measure_image ev e img len s = Inr (r, s') \<Longrightarrow> P s'"
      and "run_model ev self num_images e s = Inr (m, s')" and "P s"
  shows "P s'"
proof -
  from assms(2) obtain ds where
    "measure_loop ev e (zip ds (zip (lens self) [0..<nat num_images])) empty_metrics s =
       Inr (m, s')"
    by (auto simp: run_model_def split: sum.splits)
  from measure_loop_preserves [of P ev e, OF step this assms(3)] show ?thesis .
qed

lemma run_models_preserves:
  fixes self :: "('a, 'b) llimcobe"
  assumes step:
    "\<And>(e :: ('a, 'b) entry) img len s r s'.
       P s \<Longrightarrow> measure_image ev e img len s = Inr (r, s') \<Longrightarrow> P s'"
      and "run_models ev self num_images names res s = Inr (res', s')" and "P s"
  shows "P s'"
  using assms(2,3)
proof (induction names arbitrary: res s)
  case Nil
  then show ?case by simp
next
  case (Cons name rest)
  from Cons.prems(1) obtain e m s1 where
    rm: "run_model ev self num_images e s = Inr (m, s1)" and
    rest: "run_models ev self num_images rest
       (res\<lparr>all_bpsp := AList.update name (bpsp_list m) (all_bpsp res),
            all_throughput :=
              AList.update name (compression_throughput_list m) (all_throughput res),
            all_dthroughput :=
              AList.update name (decompression_throughput_list m) (all_dthroughput res)\<rparr>)
       s1 = Inr (res', s')"
    by (auto split: sum.splits)
  have "P s1"
    by (rule run_model_preserves [where P = P, OF _ rm Cons.prems(2)]) (rule step)
  from Cons.IH [OF rest this] show ?case .
qed

lemma measure_image_flag:
  assumes "measure_image ev e img len s = Inr (r, s')"
  shows "\<exists>loaded same.
     loaded_image e img (temp s) = Inr loaded \<and>
     matches e img (temp s) = Inr same \<and>
     lossy_flag s' = (lossy_flag s \<or> \<not> same) \<and>
     warned s' = (if \<not> same \<and> \<not> lossy_flag s then Suc (warned s) else warned s) \<and>
     displayed s' =
       (if \<not> same \<and> \<not> lossy_flag s
        then displayed s @ fst (try_display (diag_fails ev img loaded) display_steps)
        else displayed s)"
proof -
  from measure_image_Inr [OF assms] obtain raw bs loaded same where
    "roundtrip e img (temp s) = Inr (raw, Some bs)"
    "call_preprocess e raw = Inr loaded"
    "compare e img loaded = Inr same"
    "s' = (if \<not> same \<and> \<not> lossy_flag s
           then s\<lparr>temp := None, ticks := ticks s + 4, warned := Suc (warned s),
                  displayed := displayed s @
                    fst (try_display (diag_fails ev img loaded) display_steps),
                  lossy_flag := True\<rparr>
           else s\<lparr>temp := None, ticks := ticks s + 4\<rparr>)"
    by blast
  then show ?thesis
    by (intro exI [of _ loaded] exI [of _ same]) (auto simp: loaded_image_def matches_def)
qed

lemma measure_image_any_compare:
  assumes "measure_image ev e img len s = Inr (r, s')"
  shows "measure_image ev (e\<lparr>compare := \<lambda>x y. Inr True\<rparr>) img len s =
     Inr (r, s\<lparr>temp := None, ticks := ticks s + 4\<rparr>)"
  using assms
  unfolding measure_image_def Let_def
  by (auto simp: truediv_def getsize_def remove_file_def fidelity_def compress_def call_save_def
      call_load_def call_preprocess_def
      split: sum.splits prod.splits if_splits option.splits)

lemma flag_set_step:
  "lossy_flag s \<and> warned s = w \<and> displayed s = d \<Longrightarrow>
   measure_image ev e img len s = Inr (r, s') \<Longrightarrow>
   lossy_flag s' \<and> warned s' = w \<and> displayed s' = d"
  by (drule measure_image_flag) auto

lemma one_warning_step:
  "warned s = (if lossy_flag s then 1 else 0) \<Longrightarrow>
   measure_image ev e img len s = Inr (r, s') \<Longrightarrow>
   warned s' = (if lossy_flag s' then 1 else 0)"
  by (drule measure_image_flag) auto

lemma try_display_takeWhile:
  "fst (try_display fails ds) = takeWhile (\<lambda>d. fails d = None) ds"
  by (induction ds) (auto split: option.splits prod.splits)

lemma without_display_Inl: "without_display x = Inl err \<longleftrightarrow> x = Inl err"
  by (auto simp: without_display_def split: sum.splits prod.splits)

lemma without_display_Inr:
  "without_display x = Inr (r, t) \<longleftrightarrow> (\<exists>s. x = Inr (r, s) \<and> t = s\<lparr>displayed := []\<rparr>)"
  by (auto simp: without_display_def split: sum.splits prod.splits)

lemma without_display_eq_InrD:
  assumes "without_display y = without_display x" and "x = Inr (r, s)"
  shows "\<exists>dd. y = Inr (r, s\<lparr>displayed := dd\<rparr>)"
proof -
  from assms have "without_display y = Inr (r, s\<lparr>displayed := []\<rparr>)"
    by (simp add: without_display_def)
  then obtain s2 where y: "y = Inr (r, s2)" and eq: "s\<lparr>displayed := []\<rparr> = s2\<lparr>displayed := []\<rparr>"
    unfolding without_display_Inr by blast
  from eq have "s2 = s\<lparr>displayed := displayed s2\<rparr>"
    by (cases s; cases s2) simp
  with y show ?thesis by metis
qed

lemma without_display_eq_InlD:
  assumes "without_display y = without_display x" and "x = Inl err"
  shows "y = Inl err"
proof -
  from assms have "without_display y = Inl err"
    by (simp add: without_display_def)
  then show ?thesis
    by (simp only: without_display_Inl)
qed

lemma measure_image_display:
  "without_display (measure_image (ev\<lparr>diag_fails := d\<rparr>) e img len (s\<lparr>displayed := dd\<rparr>)) =
   without_display (measure_image ev e img len s)"
  unfolding measure_image_def Let_def without_display_def
  by (simp add: fidelity_def truediv_def getsize_def remove_file_def
      split: sum.splits prod.splits option.splits)


lemma measure_loop_display:
  "without_display (measure_loop (ev\<lparr>diag_fails := d\<rparr>) e xs acc (s\<lparr>displayed := dd\<rparr>)) =
   without_display (measure_loop ev e xs acc s)"
proof (induction xs arbitrary: acc s dd)
  case Nil
  then show ?case by (simp add: without_display_def)
next
  case (Cons x xs)
  obtain img len k where x: "x = (img, len, k)" by (cases x) auto
  note step = measure_image_display [where ev = ev and d = d and e = e and img = img and len = len
    and s = s and dd = dd]
  show ?case
  proof (cases "measure_image ev e img len s")
    case (Inl err)
    from without_display_eq_InlD [OF step Inl]
    have "measure_image (ev\<lparr>diag_fails := d\<rparr>) e img len (s\<lparr>displayed := dd\<rparr>) = Inl err" .
    with Inl show ?thesis by (simp add: x)
  next
    case (Inr p)
    obtain r s1 where p: "p = (r, s1)" by (cases p) auto
    from without_display_eq_InrD [OF step] Inr p obtain dd' where
      "measure_image (ev\<lparr>diag_fails := d\<rparr>) e img len (s\<lparr>displayed := dd\<rparr>) =
         Inr (r, s1\<lparr>displayed := dd'\<rparr>)"
      by blast
    with Inr p Cons.IH [where acc = "append_row acc r" and s = s1 and dd = dd'] show ?thesis
      by (simp add: x)
  qed
qed

lemma run_model_display:
  "without_display (run_model (ev\<lparr>diag_fails := d\<rparr>) self num_images e (s\<lparr>displayed := dd\<rparr>)) =
   without_display (run_model ev self num_images e s)"
  by (simp add: run_model_def measure_loop_display without_display_def [of "Inl _"]
      split: sum.splits)

lemma run_models_display:
  "without_display
     (run_models (ev\<lparr>diag_fails := d\<rparr>) self num_images names res (s\<lparr>displayed := dd\<rparr>)) =
   without_display (run_models ev self num_images names res s)"
proof (induction names arbitrary: res s dd)
  case Nil
  then show ?case by (simp add: without_display_def)
next
  case (Cons name rest)
  show ?case
  proof (cases "getitem (models self) name")
    case (Inl err)
    then show ?thesis by (simp add: without_display_def)
  next
    case e: (Inr e)
    note step = run_model_display [where ev = ev and d = d and self = self
      and num_images = num_images and e = e and s = s and dd = dd]
    show ?thesis
    proof (cases "run_model ev self num_images e s")
      case (Inl err)
      from without_display_eq_InlD [OF step Inl] have
        "run_model (ev\<lparr>diag_fails := d\<rparr>) self num_images e (s\<lparr>displayed := dd\<rparr>) = Inl err" .
      with Inl e show ?thesis by simp
    next
      case (Inr p)
      obtain m s1 where p: "p = (m, s1)" by (cases p) auto
      from without_display_eq_InrD [OF step] Inr p obtain dd' where
        "run_model (ev\<lparr>diag_fails := d\<rparr>) self num_images e (s\<lparr>displayed := dd\<rparr>) =
           Inr (m, s1\<lparr>displayed := dd'\<rparr>)"
        by blast
      with Inr p e Cons.IH [where s = s1 and dd = dd'] show ?thesis
        by simp
    qed
  qed
qed

lemma benchmark_display:
  "(benchmark (ev\<lparr>diag_fails := d\<rparr>) self num_images f = Inl err \<longleftrightarrow>
      benchmark ev self num_images f = Inl err) \<and>
   (benchmark ev self num_images f = Inr (out, res, s) \<longrightarrow>
      (\<exists>dd. benchmark (ev\<lparr>diag_fails := d\<rparr>) self num_images f =
             Inr (out, res, s\<lparr>displayed := dd\<rparr>)))"
proof -
  let ?names = "map fst (models self)"
  have i: "initial_state f = (initial_state f)\<lparr>displayed := []\<rparr>"
    by (simp add: initial_state_def)
  have step: "without_display
       (run_models (ev\<lparr>diag_fails := d\<rparr>) self num_images ?names empty_results (initial_state f)) =
     without_display (run_models ev self num_images ?names empty_results (initial_state f))"
    using run_models_display [where ev = ev and d = d and self = self and num_images = num_images
        and names = ?names and res = empty_results and s = "initial_state f" and dd = "[]"]
    by (simp add: i [symmetric])
  show ?thesis
  proof (cases "run_models ev self num_images ?names empty_results (initial_state f)")
    case (Inl e1)
    from without_display_eq_InlD [OF step Inl] have
      "run_models (ev\<lparr>diag_fails := d\<rparr>) self num_images ?names empty_results (initial_state f) =
         Inl e1" .
    with Inl show ?thesis by (simp add: benchmark_def)
  next
    case (Inr p)
    obtain res1 s1 where p: "p = (res1, s1)" by (cases p) auto
    from without_display_eq_InrD [OF step] Inr p obtain dd where
      "run_models (ev\<lparr>diag_fails := d\<rparr>) self num_images ?names empty_results (initial_state f) =
         Inr (res1, s1\<lparr>displayed := dd\<rparr>)"
      by blast
    with Inr p show ?thesis
      by (auto simp: benchmark_def split: sum.splits)
  qed
qed

lemma ex_first_image:
  "measure_image ex_env ex_half_entry ex_image 4 (initial_state None) =
     Inr (\<lparr>bpsp = 4, compression_throughput = 4 / 10 ^ 6, decompression_throughput = 4 / 10 ^ 6\<rparr>,
          \<lparr>temp = None, ticks = 4, lossy_flag = True, warned = 1,
             displayed = []\<rparr>)"
  by (simp add: step_defs ex_hooks ex_env_def initial_state_def)

lemma ex_second_image:
  "measure_image ex_env ex_half_entry (ex_image\<lparr>elems := [5, 6, 7, 8]\<rparr>) 4
     \<lparr>temp = None, ticks = 4, lossy_flag = True, warned = 1,
        displayed = []\<rparr> =
     Inr (\<lparr>bpsp = 4, compression_throughput = 4 / 10 ^ 6, decompression_throughput = 4 / 10 ^ 6\<rparr>,
          \<lparr>temp = None, ticks = 8, lossy_flag = True, warned = 1,
             displayed = []\<rparr>)"
  by (simp add: step_defs ex_hooks ex_env_def)

lemma ex_second_mismatch:
  "matches ex_half_entry (ex_image\<lparr>elems := [5, 6, 7, 8]\<rparr>) None = Inr False"
  by (simp add: matches_def loaded_image_def roundtrip_def compress_def call_save_def
      call_load_def call_preprocess_def ex_hooks)

lemma ex_first_mismatch: "matches ex_half_entry ex_image None = Inr False"
  by (simp add: matches_def loaded_image_def roundtrip_def compress_def call_save_def
      call_load_def call_preprocess_def ex_hooks)

lemma ex_first_image_matching:
  "measure_image ex_env (ex_half_entry\<lparr>compare := \<lambda>x y. Inr True\<rparr>) ex_image 4
     (initial_state None) =
     Inr (\<lparr>bpsp = 4, compression_throughput = 4 / 10 ^ 6, decompression_throughput = 4 / 10 ^ 6\<rparr>,
          \<lparr>temp = None, ticks = 4, lossy_flag = False, warned = 0, displayed = []\<rparr>)"
  by (simp add: step_defs ex_hooks ex_env_def initial_state_def)

lemma mismatch_does_not_abort:
  assumes "matches e img (temp s) = Inr same"
      and "measure_image ev (e\<lparr>compare := \<lambda>x y. Inr True\<rparr>) img len s = Inr (r, s0)"
  shows "\<exists>s'. measure_image ev e img len s = Inr (r, s')"
  using assms
  unfolding measure_image_def Let_def matches_def loaded_image_def roundtrip_def
  by (auto simp: truediv_def getsize_def remove_file_def fidelity_def compress_def call_save_def
      call_load_def call_preprocess_def
      split: sum.splits prod.splits if_splits option.splits)

lemma measure_loop_flag_set:
  assumes "lossy_flag s" and "measure_loop ev e xs acc s = Inr (acc', s')"
  shows "lossy_flag s' \<and> warned s' = warned s \<and> displayed s' = displayed s"
proof -
  let ?P = "\<lambda>x. lossy_flag x \<and> warned x = warned s \<and> displayed x = displayed s"
  have step: "?P a \<Longrightarrow> measure_image ev e img len a = Inr (r, b) \<Longrightarrow> ?P b" for img len a r b
    by (rule flag_set_step)
  have "?P s" using assms(1) by simp
  from measure_loop_preserves [of ?P, OF step assms(2) this] show ?thesis .
qed

lemma run_models_flag_set:
  fixes self :: "('a, 'b) llimcobe"
  assumes "lossy_flag s" and "run_models ev self num_images names res s = Inr (res', s')"
  shows "lossy_flag s' \<and> warned s' = warned s \<and> displayed s' = displayed s"
proof -
  let ?P = "\<lambda>x. lossy_flag x \<and> warned x = warned s \<and> displayed x = displayed s"
  have step: "?P a \<Longrightarrow> measure_image ev e img len a = Inr (r, b) \<Longrightarrow> ?P b"
    for e :: "('a, 'b) entry" and img len a r b
    by (rule flag_set_step)
  have "?P s" using assms(1) by simp
  from run_models_preserves [of ?P, OF step assms(2) this] show ?thesis .
qed

lemma run_models_one_warning:
  fixes self :: "('a, 'b) llimcobe"
  assumes "warned s = (if lossy_flag s then 1 else 0)"
      and "run_models ev self num_images names res s = Inr (res', s')"
  shows "warned s' = (if lossy_flag s' then 1 else 0)"
proof -
  let ?P = "\<lambda>x. warned x = (if lossy_flag x then 1 else 0)"
  have step: "?P a \<Longrightarrow> measure_image ev e img len a = Inr (r, b) \<Longrightarrow> ?P b"
    for e :: "('a, 'b) entry" and img len a r b
    by (rule one_warning_step)
  from run_models_preserves [of ?P, OF step assms(2) assms(1)] show ?thesis .
qed

text \<open>
  C5. A run starts with the lossy flag false and no warning emitted. In every iteration
  that completes, the flag afterwards is the flag before or a mismatch in this iteration:
  it is set by a mismatch, the first one included, and never reset. A warning is emitted
  exactly by a mismatch that finds the flag false; once the flag is set, the rest of the
  inner loop and the rest of the models leave it set and emit no warning, so a completed
  run has emitted one warning if the flag is set and none otherwise. The measurement
  recorded in an iteration is the one the same iteration records with a comparison that
  always answers true: a mismatch changes no metric. Conversely, when the comparison
  returns a truth value, an iteration that completes with a comparison that always
  answers true completes with the same measurement, whether the images match or not: a
  mismatch never aborts the measurement.
\<close>

theorem lossy_flag_set_once:
  fixes self :: "('a, 'b) llimcobe" and e :: "('a, 'b) entry"
  shows
  "lossy_flag (initial_state f) = False \<and> warned (initial_state f) = 0
   \<and> (measure_image ev e img len s = Inr (r, s') \<longrightarrow>
        (\<exists>same. matches e img (temp s) = Inr same \<and>
           lossy_flag s' = (lossy_flag s \<or> \<not> same) \<and>
           warned s' = (if \<not> same \<and> \<not> lossy_flag s then Suc (warned s) else warned s) \<and>
           measure_image ev (e\<lparr>compare := \<lambda>x y. Inr True\<rparr>) img len s =
             Inr (r, s\<lparr>temp := None, ticks := ticks s + 4\<rparr>)))
   \<and> (matches e img (temp s) = Inr same \<and>
       measure_image ev (e\<lparr>compare := \<lambda>x y. Inr True\<rparr>) img len s = Inr (r, s0) \<longrightarrow>
        (\<exists>s1. measure_image ev e img len s = Inr (r, s1) \<and>
           lossy_flag s1 = (lossy_flag s \<or> \<not> same) \<and>
           warned s1 = (if \<not> same \<and> \<not> lossy_flag s then Suc (warned s) else warned s)))
   \<and> (lossy_flag t \<and> measure_loop ev e xs acc t = Inr (acc', t') \<longrightarrow>
        lossy_flag t' \<and> warned t' = warned t)
   \<and> (lossy_flag u \<and> run_models ev self num_images names res u = Inr (res', u') \<longrightarrow>
        lossy_flag u' \<and> warned u' = warned u)
   \<and> (benchmark ev self num_images f = Inr (out, rs, v) \<longrightarrow>
        warned v = (if lossy_flag v then 1 else 0))"
proof (intro conjI impI)
  show "lossy_flag (initial_state f) = False" "warned (initial_state f) = 0"
    by (simp_all add: initial_state_def)
next
  assume mi: "measure_image ev e img len s = Inr (r, s')"
  from measure_image_flag [OF mi] measure_image_any_compare [OF mi]
  show "\<exists>same. matches e img (temp s) = Inr same \<and>
           lossy_flag s' = (lossy_flag s \<or> \<not> same) \<and>
           warned s' = (if \<not> same \<and> \<not> lossy_flag s then Suc (warned s) else warned s) \<and>
           measure_image ev (e\<lparr>compare := \<lambda>x y. Inr True\<rparr>) img len s =
             Inr (r, s\<lparr>temp := None, ticks := ticks s + 4\<rparr>)"
    by blast
next
  assume a: "matches e img (temp s) = Inr same \<and>
       measure_image ev (e\<lparr>compare := \<lambda>x y. Inr True\<rparr>) img len s = Inr (r, s0)"
  then have m: "matches e img (temp s) = Inr same" and
    m0: "measure_image ev (e\<lparr>compare := \<lambda>x y. Inr True\<rparr>) img len s = Inr (r, s0)"
    by simp_all
  from mismatch_does_not_abort [OF m m0]
  obtain s1 where mi: "measure_image ev e img len s = Inr (r, s1)" ..
  from measure_image_flag [OF mi] a
  have "lossy_flag s1 = (lossy_flag s \<or> \<not> same) \<and>
      warned s1 = (if \<not> same \<and> \<not> lossy_flag s then Suc (warned s) else warned s)"
    by auto
  with mi show "\<exists>s1. measure_image ev e img len s = Inr (r, s1) \<and>
           lossy_flag s1 = (lossy_flag s \<or> \<not> same) \<and>
           warned s1 = (if \<not> same \<and> \<not> lossy_flag s then Suc (warned s) else warned s)"
    by blast
next
  assume a: "lossy_flag t \<and> measure_loop ev e xs acc t = Inr (acc', t')"
  then have "lossy_flag t' \<and> warned t' = warned t \<and> displayed t' = displayed t"
    using measure_loop_flag_set by blast
  then show "lossy_flag t'" "warned t' = warned t" by simp_all
next
  assume a: "lossy_flag u \<and> run_models ev self num_images names res u = Inr (res', u')"
  then have "lossy_flag u' \<and> warned u' = warned u \<and> displayed u' = displayed u"
    using run_models_flag_set by blast
  then show "lossy_flag u'" "warned u' = warned u" by simp_all
next
  assume "benchmark ev self num_images f = Inr (out, rs, v)"
  then have run: "run_models ev self num_images (map fst (models self)) empty_results
      (initial_state f) = Inr (rs, v)"
    by (auto simp: benchmark_def split: sum.splits)
  have "warned (initial_state f) = (if lossy_flag (initial_state f) then 1 else 0)"
    by (simp add: initial_state_def)
  from run_models_one_warning [OF this run]
  show "warned v = (if lossy_flag v then 1 else 0)" .
qed


theorem lossy_flag_set_once_witness:
  "(\<exists>r s1 r2 s2.
      measure_image ex_env ex_half_entry ex_image 4 (initial_state None) = Inr (r, s1) \<and>
      lossy_flag (initial_state None) = False \<and>
      matches ex_half_entry ex_image None = Inr False \<and>
      lossy_flag s1 \<and> warned s1 = 1 \<and>
      measure_image ex_env (ex_half_entry\<lparr>compare := \<lambda>x y. Inr True\<rparr>) ex_image 4
        (initial_state None) = Inr (r, (initial_state None)\<lparr>temp := None, ticks := 4\<rparr>) \<and>
      measure_image ex_env ex_half_entry (ex_image\<lparr>elems := [5, 6, 7, 8]\<rparr>) 4 s1 =
        Inr (r2, s2) \<and>
      matches ex_half_entry (ex_image\<lparr>elems := [5, 6, 7, 8]\<rparr>) (temp s1) = Inr False \<and>
      lossy_flag s2 \<and> warned s2 = 1 \<and> r2 = r)
   \<and> (\<exists>r s0 s1.
         matches ex_half_entry ex_image (temp (initial_state None)) = Inr False \<and>
         measure_image ex_env (ex_half_entry\<lparr>compare := \<lambda>x y. Inr True\<rparr>) ex_image 4
           (initial_state None) = Inr (r, s0) \<and>
         measure_image ex_env ex_half_entry ex_image 4 (initial_state None) = Inr (r, s1) \<and>
         lossy_flag s1 \<and> warned s1 = 1)
   \<and> (\<exists>out v. benchmark ex_env ex_harness 2 None = Inr (out, ex_results, v) \<and>
         lossy_flag v \<and> warned v = 1)"
proof -
  let ?r = "\<lparr>bpsp = 4, compression_throughput = 4 / 10 ^ 6,
             decompression_throughput = 4 / 10 ^ 6\<rparr>"
  let ?shown = "[] :: diag_op list"
  let ?s0 = "\<lparr>temp = None, ticks = 4, lossy_flag = False, warned = 0, displayed = ?shown\<rparr>"
  let ?s1 = "\<lparr>temp = None, ticks = 4, lossy_flag = True, warned = 1, displayed = ?shown\<rparr>"
  let ?s2 = "\<lparr>temp = None, ticks = 8, lossy_flag = True, warned = 1, displayed = ?shown\<rparr>"
  let ?v = "\<lparr>temp = None, ticks = 16, lossy_flag = True, warned = 1, displayed = ?shown\<rparr>"
  note first = lossy_flag_set_once
    [where f = None and ev = ex_env and e = ex_half_entry and img = ex_image and len = 4
       and s = "initial_state None" and r = ?r and s' = ?s1 and self = ex_harness
       and num_images = 2 and rs = ex_results and v = ?v and same = False and ?s0.0 = ?s0]
  have m1: "matches ex_half_entry ex_image (temp (initial_state None)) = Inr False"
    by (simp add: initial_state_def ex_first_mismatch)
  from first [THEN conjunct2, THEN conjunct2, THEN conjunct2, THEN conjunct1, THEN mp,
      OF conjI [OF m1 ex_first_image_matching]]
  obtain sx where
    "measure_image ex_env ex_half_entry ex_image 4 (initial_state None) = Inr (?r, sx)"
    "lossy_flag sx = (lossy_flag (initial_state None) \<or> \<not> False)"
    "warned sx = (if \<not> False \<and> \<not> lossy_flag (initial_state None)
       then Suc (warned (initial_state None)) else warned (initial_state None))"
    by blast
  then have "measure_image ex_env ex_half_entry ex_image 4 (initial_state None) = Inr (?r, sx) \<and>
      lossy_flag sx \<and> warned sx = 1"
    by (simp add: initial_state_def)
  with m1 ex_first_image_matching have middle: "\<exists>r s0 s1.
         matches ex_half_entry ex_image (temp (initial_state None)) = Inr False \<and>
         measure_image ex_env (ex_half_entry\<lparr>compare := \<lambda>x y. Inr True\<rparr>) ex_image 4
           (initial_state None) = Inr (r, s0) \<and>
         measure_image ex_env ex_half_entry ex_image 4 (initial_state None) = Inr (r, s1) \<and>
         lossy_flag s1 \<and> warned s1 = 1"
    by blast
  from first have a1: "lossy_flag (initial_state None) = False"
    by (rule conjunct1)
  from first [THEN conjunct2, THEN conjunct2, THEN conjunct1, THEN mp, OF ex_first_image]
  obtain same where
    same: "matches ex_half_entry ex_image (temp (initial_state None)) = Inr same"
      "lossy_flag ?s1 = (lossy_flag (initial_state None) \<or> \<not> same)" and
    a3: "measure_image ex_env (ex_half_entry\<lparr>compare := \<lambda>x y. Inr True\<rparr>) ex_image 4
        (initial_state None) =
        Inr (?r, (initial_state None)\<lparr>temp := None, ticks := ticks (initial_state None) + 4\<rparr>)"
    by blast
  from same have a2: "matches ex_half_entry ex_image None = Inr False"
    by (simp add: initial_state_def)
  from first [THEN conjunct2, THEN conjunct2, THEN conjunct2, THEN conjunct2, THEN conjunct2,
      THEN conjunct2, THEN mp, OF ex_benchmark]
  have b: "warned ?v = (if lossy_flag ?v then 1 else 0)" .
  have a3': "measure_image ex_env (ex_half_entry\<lparr>compare := \<lambda>x y. Inr True\<rparr>) ex_image 4
        (initial_state None) = Inr (?r, (initial_state None)\<lparr>temp := None, ticks := 4\<rparr>)"
    using a3 by (simp add: initial_state_def)
  have m2: "matches ex_half_entry (ex_image\<lparr>elems := [5, 6, 7, 8]\<rparr>) (temp ?s1) = Inr False"
    using ex_second_mismatch by simp
  have left: "measure_image ex_env ex_half_entry ex_image 4 (initial_state None) = Inr (?r, ?s1) \<and>
      lossy_flag (initial_state None) = False \<and>
      matches ex_half_entry ex_image None = Inr False \<and>
      lossy_flag ?s1 \<and> warned ?s1 = 1 \<and>
      measure_image ex_env (ex_half_entry\<lparr>compare := \<lambda>x y. Inr True\<rparr>) ex_image 4
        (initial_state None) = Inr (?r, (initial_state None)\<lparr>temp := None, ticks := 4\<rparr>) \<and>
      measure_image ex_env ex_half_entry (ex_image\<lparr>elems := [5, 6, 7, 8]\<rparr>) 4 ?s1 =
        Inr (?r, ?s2) \<and>
      matches ex_half_entry (ex_image\<lparr>elems := [5, 6, 7, 8]\<rparr>) (temp ?s1) = Inr False \<and>
      lossy_flag ?s2 \<and> warned ?s2 = 1 \<and> ?r = ?r"
    using ex_first_image a1 a2 a3' ex_second_image m2 by simp
  have right: "benchmark ex_env ex_harness 2 None = Inr
      ([RateLine ''raw'' 8, ThroughputLine ''raw'' (4 / 10 ^ 6),
        DThroughputLine ''raw'' (4 / 10 ^ 6), RateLine ''half'' 4,
        ThroughputLine ''half'' (4 / 10 ^ 6), DThroughputLine ''half'' (4 / 10 ^ 6)],
       ex_results, ?v) \<and> lossy_flag ?v \<and> warned ?v = 1"
    using ex_benchmark b by simp
  from left middle right show ?thesis
    by blast
qed

section \<open>The diagnostic display\<close>

lemma ex_first_loaded:
  "loaded_image ex_half_entry ex_image None = Inr (ex_image\<lparr>elems := [0, 0, 0, 0]\<rparr>)"
  by (simp add: loaded_image_def roundtrip_def compress_def call_save_def
      call_load_def call_preprocess_def ex_hooks)

lemma ex_first_display:
  "diag_fails ex_env ex_image (ex_image\<lparr>elems := [0, 0, 0, 0]\<rparr>) MakeThread1 =
     Some AttributeError"
  by (simp add: ex_env_def)

text \<open>
  The images of the small harness are numpy arrays, compared with \<^verbatim>\<open>array_equal\<close>. They
  have no \<^verbatim>\<open>show\<close> attribute, so at the first mismatch the first line of the \<^verbatim>\<open>try\<close>
  block raises: the mismatch is warned about, the flag is set and the measurement is
  recorded, but no thread is built, started or joined.
\<close>

theorem display_not_started_counterexample:
  "matches ex_half_entry ex_image (temp (initial_state None)) = Inr False \<and>
   lossy_flag (initial_state None) = False \<and>
   loaded_image ex_half_entry ex_image None = Inr (ex_image\<lparr>elems := [0, 0, 0, 0]\<rparr>) \<and>
   diag_fails ex_env ex_image (ex_image\<lparr>elems := [0, 0, 0, 0]\<rparr>) MakeThread1 =
     Some AttributeError \<and>
   measure_image ex_env ex_half_entry ex_image 4 (initial_state None) =
     Inr (\<lparr>bpsp = 4, compression_throughput = 4 / 10 ^ 6,
            decompression_throughput = 4 / 10 ^ 6\<rparr>,
          \<lparr>temp = None, ticks = 4, lossy_flag = True, warned = 1, displayed = []\<rparr>)"
proof (intro conjI)
  show "matches ex_half_entry ex_image (temp (initial_state None)) = Inr False"
    by (simp add: initial_state_def ex_first_mismatch)
  show "lossy_flag (initial_state None) = False"
    by (simp add: initial_state_def)
  show "loaded_image ex_half_entry ex_image None = Inr (ex_image\<lparr>elems := [0, 0, 0, 0]\<rparr>)"
    by (rule ex_first_loaded)
  show "diag_fails ex_env ex_image (ex_image\<lparr>elems := [0, 0, 0, 0]\<rparr>) MakeThread1 =
     Some AttributeError"
    by (rule ex_first_display)
  show "measure_image ex_env ex_half_entry ex_image 4 (initial_state None) =
     Inr (\<lparr>bpsp = 4, compression_throughput = 4 / 10 ^ 6,
            decompression_throughput = 4 / 10 ^ 6\<rparr>,
          \<lparr>temp = None, ticks = 4, lossy_flag = True, warned = 1, displayed = []\<rparr>)"
    by (rule ex_first_image)
qed

text \<open>
  C9, as the code has it. Which step of the display raises, if any, changes neither the
  exception nor the measurement, flag, warning count, slot and clock of an iteration,
  and neither the exception nor the printed lines and recorded lists of a run: only the
  record of the display steps differs. When a mismatch finds the flag false and the
  iteration completes, the flag is set, one warning is emitted, the display steps
  performed are those before the first step that raises (all six, both threads started
  and joined, when none raises), and the measurement is the one a matching image
  gives. Such an iteration does complete whenever the same iteration with a comparison
  that always answers true does, whatever the display does.
\<close>

theorem display_failure_swallowed:
  fixes self :: "('a, 'b) llimcobe" and e :: "('a, 'b) entry"
  shows
  "without_display (measure_image (ev\<lparr>diag_fails := d\<rparr>) e img len s) =
     without_display (measure_image ev e img len s)
   \<and> (benchmark (ev\<lparr>diag_fails := d\<rparr>) self num_images f = Inl err \<longleftrightarrow>
        benchmark ev self num_images f = Inl err)
   \<and> (benchmark ev self num_images f = Inr (out, rs, v) \<longrightarrow>
        (\<exists>dd. benchmark (ev\<lparr>diag_fails := d\<rparr>) self num_images f =
               Inr (out, rs, v\<lparr>displayed := dd\<rparr>)))
   \<and> (measure_image ev e img len s = Inr (r, s') \<and> \<not> lossy_flag s \<and>
        matches e img (temp s) = Inr False \<longrightarrow>
        (\<exists>loaded. loaded_image e img (temp s) = Inr loaded \<and>
           lossy_flag s' \<and> warned s' = Suc (warned s) \<and>
           displayed s' =
             displayed s @ takeWhile (\<lambda>step. diag_fails ev img loaded step = None) display_steps \<and>
           ((\<forall>step. diag_fails ev img loaded step = None) \<longrightarrow>
              displayed s' = displayed s @ display_steps) \<and>
           measure_image ev (e\<lparr>compare := \<lambda>x y. Inr True\<rparr>) img len s =
             Inr (r, s\<lparr>temp := None, ticks := ticks s + 4\<rparr>)))
   \<and> (\<not> lossy_flag s \<and> matches e img (temp s) = Inr False \<and>
       measure_image ev (e\<lparr>compare := \<lambda>x y. Inr True\<rparr>) img len s = Inr (r, s0) \<longrightarrow>
        (\<exists>s1. measure_image ev e img len s = Inr (r, s1) \<and>
           lossy_flag s1 \<and> warned s1 = Suc (warned s)))"
proof (intro conjI impI)
  show "without_display (measure_image (ev\<lparr>diag_fails := d\<rparr>) e img len s) =
     without_display (measure_image ev e img len s)"
    using measure_image_display [where ev = ev and d = d and e = e and img = img and len = len
        and s = s and dd = "displayed s"]
    by simp
next
  show "benchmark (ev\<lparr>diag_fails := d\<rparr>) self num_images f = Inl err \<longleftrightarrow>
        benchmark ev self num_images f = Inl err"
    using benchmark_display by blast
next
  assume "benchmark ev self num_images f = Inr (out, rs, v)"
  then show "\<exists>dd. benchmark (ev\<lparr>diag_fails := d\<rparr>) self num_images f =
               Inr (out, rs, v\<lparr>displayed := dd\<rparr>)"
    using benchmark_display by blast
next
  assume a: "measure_image ev e img len s = Inr (r, s') \<and> \<not> lossy_flag s \<and>
        matches e img (temp s) = Inr False"
  then have mi: "measure_image ev e img len s = Inr (r, s')" and nf: "\<not> lossy_flag s"
    and mm: "matches e img (temp s) = Inr False"
    by simp_all
  from measure_image_flag [OF mi] mm nf obtain loaded where
    l: "loaded_image e img (temp s) = Inr loaded" and
    fl: "lossy_flag s'" and w: "warned s' = Suc (warned s)" and
    dsp: "displayed s' = displayed s @ fst (try_display (diag_fails ev img loaded) display_steps)"
    by auto
  have tw: "displayed s' =
      displayed s @ takeWhile (\<lambda>step. diag_fails ev img loaded step = None) display_steps"
    using dsp by (simp add: try_display_takeWhile)
  have full: "displayed s' = displayed s @ display_steps"
    if "\<forall>step. diag_fails ev img loaded step = None"
    using tw that by simp
  show "\<exists>loaded. loaded_image e img (temp s) = Inr loaded \<and>
           lossy_flag s' \<and> warned s' = Suc (warned s) \<and>
           displayed s' =
             displayed s @ takeWhile (\<lambda>step. diag_fails ev img loaded step = None) display_steps \<and>
           ((\<forall>step. diag_fails ev img loaded step = None) \<longrightarrow>
              displayed s' = displayed s @ display_steps) \<and>
           measure_image ev (e\<lparr>compare := \<lambda>x y. Inr True\<rparr>) img len s =
             Inr (r, s\<lparr>temp := None, ticks := ticks s + 4\<rparr>)"
    using l fl w tw full measure_image_any_compare [OF mi] by blast
next
  assume a: "\<not> lossy_flag s \<and> matches e img (temp s) = Inr False \<and>
       measure_image ev (e\<lparr>compare := \<lambda>x y. Inr True\<rparr>) img len s = Inr (r, s0)"
  then have nf: "\<not> lossy_flag s" and m: "matches e img (temp s) = Inr False" and
    m0: "measure_image ev (e\<lparr>compare := \<lambda>x y. Inr True\<rparr>) img len s = Inr (r, s0)"
    by simp_all
  from mismatch_does_not_abort [OF m m0]
  obtain s1 where mi: "measure_image ev e img len s = Inr (r, s1)" ..
  from measure_image_flag [OF mi] m nf
  have "lossy_flag s1 \<and> warned s1 = Suc (warned s)"
    by auto
  with mi show "\<exists>s1. measure_image ev e img len s = Inr (r, s1) \<and>
           lossy_flag s1 \<and> warned s1 = Suc (warned s)"
    by blast
qed


theorem display_failure_swallowed_witness:
  "(\<exists>out v dd.
      benchmark ex_env ex_harness 2 None = Inr (out, ex_results, v) \<and>
      benchmark (ex_env\<lparr>diag_fails := \<lambda>x y step. None\<rparr>) ex_harness 2 None =
        Inr (out, ex_results, v\<lparr>displayed := dd\<rparr>))
   \<and> (\<exists>r s'.
         measure_image ex_env ex_half_entry ex_image 4 (initial_state None) = Inr (r, s') \<and>
         \<not> lossy_flag (initial_state None) \<and>
         matches ex_half_entry ex_image (temp (initial_state None)) = Inr False \<and>
         lossy_flag s' \<and> warned s' = 1 \<and> displayed s' = [] \<and>
         measure_image ex_env (ex_half_entry\<lparr>compare := \<lambda>x y. Inr True\<rparr>) ex_image 4
           (initial_state None) = Inr (r, (initial_state None)\<lparr>temp := None, ticks := 4\<rparr>))
   \<and> (\<exists>r s0 s1.
         measure_image ex_env (ex_half_entry\<lparr>compare := \<lambda>x y. Inr True\<rparr>) ex_image 4
           (initial_state None) = Inr (r, s0) \<and>
         measure_image ex_env ex_half_entry ex_image 4 (initial_state None) = Inr (r, s1) \<and>
         lossy_flag s1 \<and> warned s1 = 1)"
proof -
  let ?r = "\<lparr>bpsp = 4, compression_throughput = 4 / 10 ^ 6,
             decompression_throughput = 4 / 10 ^ 6\<rparr>"
  let ?v = "\<lparr>temp = None, ticks = 16, lossy_flag = True, warned = 1, displayed = []\<rparr>"
  let ?s0 = "\<lparr>temp = None, ticks = 4, lossy_flag = False, warned = 0, displayed = []\<rparr>"
  let ?s1 = "\<lparr>temp = None, ticks = 4, lossy_flag = True, warned = 1, displayed = []\<rparr>"
  let ?d = "\<lambda>(x :: ndarray) (y :: ndarray) (step :: diag_op). None :: py_error option"
  have nf: "\<not> lossy_flag (initial_state None)"
    by (simp add: initial_state_def)
  have mm: "matches ex_half_entry ex_image (temp (initial_state None)) = Inr False"
    by (simp add: initial_state_def ex_first_mismatch)
  from display_failure_swallowed
    [where ev = ex_env and d = ?d and self = ex_harness and num_images = 2 and f = None
       and rs = ex_results and v = ?v,
     THEN conjunct2, THEN conjunct2, THEN conjunct1, THEN mp, OF ex_benchmark]
  obtain dd where
    "benchmark (ex_env\<lparr>diag_fails := ?d\<rparr>) ex_harness 2 None =
       Inr ([RateLine ''raw'' 8, ThroughputLine ''raw'' (4 / 10 ^ 6),
             DThroughputLine ''raw'' (4 / 10 ^ 6), RateLine ''half'' 4,
             ThroughputLine ''half'' (4 / 10 ^ 6), DThroughputLine ''half'' (4 / 10 ^ 6)],
            ex_results, ?v\<lparr>displayed := dd\<rparr>)"
    by blast
  with ex_benchmark have left: "\<exists>out v dd.
      benchmark ex_env ex_harness 2 None = Inr (out, ex_results, v) \<and>
      benchmark (ex_env\<lparr>diag_fails := \<lambda>x y step. None\<rparr>) ex_harness 2 None =
        Inr (out, ex_results, v\<lparr>displayed := dd\<rparr>)"
    by blast
  from display_failure_swallowed
    [where ev = ex_env and e = ex_half_entry and img = ex_image and len = 4
       and s = "initial_state None" and r = ?r and s' = ?s1,
     THEN conjunct2, THEN conjunct2, THEN conjunct2, THEN conjunct1, THEN mp,
     OF conjI [OF ex_first_image conjI [OF nf mm]]]
  have "measure_image ex_env (ex_half_entry\<lparr>compare := \<lambda>x y. Inr True\<rparr>) ex_image 4
           (initial_state None) =
        Inr (?r, (initial_state None)\<lparr>temp := None, ticks := ticks (initial_state None) + 4\<rparr>)"
    by blast
  then have any: "measure_image ex_env (ex_half_entry\<lparr>compare := \<lambda>x y. Inr True\<rparr>)
      ex_image 4 (initial_state None) =
        Inr (?r, (initial_state None)\<lparr>temp := None, ticks := 4\<rparr>)"
    by (simp add: initial_state_def)
  have middle: "measure_image ex_env ex_half_entry ex_image 4 (initial_state None) =
         Inr (?r, ?s1) \<and>
         \<not> lossy_flag (initial_state None) \<and>
         matches ex_half_entry ex_image (temp (initial_state None)) = Inr False \<and>
         lossy_flag ?s1 \<and> warned ?s1 = 1 \<and> displayed ?s1 = [] \<and>
         measure_image ex_env (ex_half_entry\<lparr>compare := \<lambda>x y. Inr True\<rparr>) ex_image 4
           (initial_state None) = Inr (?r, (initial_state None)\<lparr>temp := None, ticks := 4\<rparr>)"
    using ex_first_image nf mm any by simp
  from display_failure_swallowed
    [where ev = ex_env and e = ex_half_entry and img = ex_image and len = 4
       and s = "initial_state None" and r = ?r and ?s0.0 = ?s0,
     THEN conjunct2, THEN conjunct2, THEN conjunct2, THEN conjunct2, THEN mp,
     OF conjI [OF nf conjI [OF mm ex_first_image_matching]]]
  obtain sx where
    "measure_image ex_env ex_half_entry ex_image 4 (initial_state None) = Inr (?r, sx)"
    "lossy_flag sx" "warned sx = Suc (warned (initial_state None))"
    by blast
  then have "measure_image ex_env ex_half_entry ex_image 4 (initial_state None) = Inr (?r, sx) \<and>
      lossy_flag sx \<and> warned sx = 1"
    by (simp add: initial_state_def)
  with ex_first_image_matching have right: "\<exists>r s0 s1.
         measure_image ex_env (ex_half_entry\<lparr>compare := \<lambda>x y. Inr True\<rparr>) ex_image 4
           (initial_state None) = Inr (r, s0) \<and>
         measure_image ex_env ex_half_entry ex_image 4 (initial_state None) = Inr (r, s1) \<and>
         lossy_flag s1 \<and> warned s1 = 1"
    by blast
  from left middle right show ?thesis
    by blast
qed

section \<open>The scratch slot\<close>

lemma run_models_slot_empty:
  fixes self :: "('a, 'b) llimcobe"
  assumes "temp s = None" and "run_models ev self num_images names res s = Inr (res', s')"
  shows "temp s' = None"
proof -
  let ?P = "\<lambda>x. temp x = None"
  have step: "?P a \<Longrightarrow> measure_image ev e img len a = Inr (r, b) \<Longrightarrow> ?P b"
    for e :: "('a, 'b) entry" and img len a r b
    by (drule measure_image_state) simp
  from run_models_preserves [of ?P, OF step assms(2) assms(1)] show ?thesis .
qed

text \<open>
  C6. The slot is one path, so it holds one file or none at any time. The constructor
  leaves the slot empty whatever it found there. An iteration that completes had an
  artifact in the slot when line 134 measured it and leaves the slot empty. In a
  completed inner loop every iteration but the first starts on an empty slot, the first
  on the slot as the loop found it, and each ends with the slot empty; a completed run
  that started on an empty slot ends with the slot empty.
\<close>

theorem single_slot_protocol:
  fixes self :: "('a, 'b) llimcobe" and e :: "('a, 'b) entry"
  shows
  "snd (init prepared stale :: ('a, 'b) llimcobe \<times> slot) = None
   \<and> (measure_image ev e img len s = Inr (r, s') \<longrightarrow>
        (\<exists>raw bs. roundtrip e img (temp s) = Inr (raw, Some bs)) \<and> temp s' = None)
   \<and> (measure_loop ev e xs acc t = Inr (acc', t') \<longrightarrow>
        temp t' = (if xs = [] then temp t else None) \<and>
        (\<forall>i<length xs. \<exists>si ri si'.
           measure_image ev e (fst (xs ! i)) (fst (snd (xs ! i))) si = Inr (ri, si') \<and>
           temp si = (if i = 0 then temp t else None) \<and> temp si' = None))
   \<and> (benchmark ev self num_images None = Inr (out, rs, v) \<longrightarrow> temp v = None)"
proof (intro conjI impI)
  show "snd (init prepared stale :: ('a, 'b) llimcobe \<times> slot) = None"
    by (simp add: init_def)
next
  assume mi: "measure_image ev e img len s = Inr (r, s')"
  from measure_image_Inr [OF mi] show "\<exists>raw bs. roundtrip e img (temp s) = Inr (raw, Some bs)"
    by blast
  from measure_image_state [OF mi] show "temp s' = None"
    by simp
next
  assume ml: "measure_loop ev e xs acc t = Inr (acc', t')"
  from measure_loop_Inr [OF ml] obtain rows where
    f: "temp t' = (if xs = [] then temp t else None)" and
    it: "\<forall>i<length xs. \<exists>si si'.
        measure_image ev e (fst (xs ! i)) (fst (snd (xs ! i))) si = Inr (rows ! i, si') \<and>
        ticks si = ticks t + 4 * i \<and>
        temp si = (if i = 0 then temp t else None)"
    by blast
  show "temp t' = (if xs = [] then temp t else None)"
    by (rule f)
  show "\<forall>i<length xs. \<exists>si ri si'.
           measure_image ev e (fst (xs ! i)) (fst (snd (xs ! i))) si = Inr (ri, si') \<and>
           temp si = (if i = 0 then temp t else None) \<and> temp si' = None"
  proof (intro allI impI)
    fix i assume "i < length xs"
    with it obtain si si' where
      mi: "measure_image ev e (fst (xs ! i)) (fst (snd (xs ! i))) si = Inr (rows ! i, si')" and
      fi: "temp si = (if i = 0 then temp t else None)"
      by blast
    from measure_image_state [OF mi] have "temp si' = None"
      by simp
    with mi fi show "\<exists>si ri si'.
           measure_image ev e (fst (xs ! i)) (fst (snd (xs ! i))) si = Inr (ri, si') \<and>
           temp si = (if i = 0 then temp t else None) \<and> temp si' = None"
      by blast
  qed
next
  assume "benchmark ev self num_images None = Inr (out, rs, v)"
  then have run: "run_models ev self num_images (map fst (models self)) empty_results
      (initial_state None) = Inr (rs, v)"
    by (auto simp: benchmark_def split: sum.splits)
  have "temp (initial_state None) = None"
    by (simp add: initial_state_def)
  from run_models_slot_empty [OF this run] show "temp v = None" .
qed

theorem single_slot_protocol_witness:
  "snd (init ex_dataset (Some [7]) :: (ndarray, byte list) llimcobe \<times> slot) = None
   \<and> (\<exists>r s' raw bs.
         measure_image ex_env ex_half_entry ex_image 4 (initial_state None) = Inr (r, s') \<and>
         roundtrip ex_half_entry ex_image (temp (initial_state None)) = Inr (raw, Some bs) \<and>
         temp s' = None)
   \<and> (\<exists>out v. benchmark ex_env ex_harness 2 None = Inr (out, ex_results, v) \<and> temp v = None)"
proof -
  let ?r = "\<lparr>bpsp = 4, compression_throughput = 4 / 10 ^ 6,
             decompression_throughput = 4 / 10 ^ 6\<rparr>"
  let ?shown = "[] :: diag_op list"
  let ?s1 = "\<lparr>temp = None, ticks = 4, lossy_flag = True, warned = 1, displayed = ?shown\<rparr>"
  let ?v = "\<lparr>temp = None, ticks = 16, lossy_flag = True, warned = 1, displayed = ?shown\<rparr>"
  note inst = single_slot_protocol
    [where prepared = ex_dataset and stale = "Some [7]" and ev = ex_env and e = ex_half_entry
       and img = ex_image and len = 4 and s = "initial_state None" and r = ?r and s' = ?s1
       and self = ex_harness and num_images = 2 and rs = ex_results and v = ?v]
  from inst have a: "snd (init ex_dataset (Some [7]) :: (ndarray, byte list) llimcobe \<times> slot) = None"
    by (rule conjunct1)
  from inst [THEN conjunct2, THEN conjunct1, THEN mp, OF ex_first_image]
  have b: "(\<exists>raw bs. roundtrip ex_half_entry ex_image (temp (initial_state None)) =
             Inr (raw, Some bs)) \<and> temp ?s1 = None" .
  from inst [THEN conjunct2, THEN conjunct2, THEN conjunct2, THEN mp, OF ex_benchmark]
  have c: "temp ?v = None" .
  from a b c ex_first_image ex_benchmark show ?thesis
    by blast
qed

section \<open>The report\<close>

lemma run_models_keys:
  fixes self :: "('a, 'b) llimcobe"
  assumes "run_models ev self num_images names res s = Inr (res', s')" and "name \<in> set names"
  shows "\<exists>(e :: ('a, 'b) entry) ds (m :: metrics).
     map_of (models self) name = Some e \<and>
     map_hook (call_preprocess e) (dataset self) = Inr ds \<and>
     map_of (all_bpsp res') name = Some (bpsp_list m) \<and>
     map_of (all_throughput res') name = Some (compression_throughput_list m) \<and>
     map_of (all_dthroughput res') name = Some (decompression_throughput_list m) \<and>
     length (bpsp_list m) = iterations self num_images \<and>
     length (compression_throughput_list m) = iterations self num_images \<and>
     length (decompression_throughput_list m) = iterations self num_images"
  using assms
proof (induction names arbitrary: res s)
  case Nil
  then show ?case by simp
next
  case (Cons nm rest)
  from Cons.prems(1) obtain e m s1 where
    e: "map_of (models self) nm = Some e" and
    rm: "run_model ev self num_images e s = Inr (m, s1)" and
    rest: "run_models ev self num_images rest
       (res\<lparr>all_bpsp := AList.update nm (bpsp_list m) (all_bpsp res),
            all_throughput :=
              AList.update nm (compression_throughput_list m) (all_throughput res),
            all_dthroughput :=
              AList.update nm (decompression_throughput_list m) (all_dthroughput res)\<rparr>)
       s1 = Inr (res', s')"
    by (auto simp: getitem_def split: sum.splits option.splits)
  show ?case
  proof (cases "name \<in> set rest")
    case True
    from Cons.IH [OF rest True] show ?thesis .
  next
    case False
    with Cons.prems(2) have nm: "nm = name" by simp
    from run_models_other [OF rest False] have here:
      "map_of (all_bpsp res') name = Some (bpsp_list m)"
      "map_of (all_throughput res') name = Some (compression_throughput_list m)"
      "map_of (all_dthroughput res') name = Some (decompression_throughput_list m)"
      by (simp_all add: update_conv' nm)
    from run_model_rows [OF rm] obtain ds where
      "map_hook (call_preprocess e) (dataset self) = Inr ds"
      "length (bpsp_list m) = iterations self num_images"
      "length (compression_throughput_list m) = iterations self num_images"
      "length (decompression_throughput_list m) = iterations self num_images"
      by blast
    with e here show ?thesis
      unfolding nm by blast
  qed
qed

lemma mean_Nil: "mean [] = Inl ZeroDivisionError"
  by (simp add: mean_def truediv_def)

lemma mean_Cons: "xs \<noteq> [] \<Longrightarrow> mean xs = Inr (sum_list xs / real (length xs))"
  by (simp add: mean_def truediv_def)

lemma report_empty:
  assumes "\<forall>name\<in>set names. \<exists>bs cs ds.
       map_of (all_bpsp res) name = Some bs \<and> map_of (all_throughput res) name = Some cs \<and>
       map_of (all_dthroughput res) name = Some ds"
      and "\<exists>name\<in>set names. map_of (all_bpsp res) name = Some []"
  shows "report res names out = Inl ZeroDivisionError"
  using assms
proof (induction names arbitrary: out)
  case Nil
  then show ?case by simp
next
  case (Cons nm rest)
  from Cons.prems(1) obtain bs cs ds where
    l: "map_of (all_bpsp res) nm = Some bs" "map_of (all_throughput res) nm = Some cs"
      "map_of (all_dthroughput res) nm = Some ds"
    by auto
  show ?case
  proof (cases "bs = [] \<or> cs = [] \<or> ds = []")
    case True
    then show ?thesis
      using l by (cases "bs = []"; cases "cs = []") (auto simp: getitem_def mean_Nil mean_Cons)
  next
    case False
    with Cons.prems(2) l have ex: "\<exists>name\<in>set rest. map_of (all_bpsp res) name = Some []"
      by auto
    from Cons.prems(1) have all: "\<forall>name\<in>set rest. \<exists>bs cs ds.
       map_of (all_bpsp res) name = Some bs \<and> map_of (all_throughput res) name = Some cs \<and>
       map_of (all_dthroughput res) name = Some ds"
      by simp
    from False l Cons.IH [OF all ex] show ?thesis
      by (simp add: getitem_def mean_Cons)
  qed
qed

lemma map_hook_total:
  "\<forall>x\<in>set xs. \<exists>y. f x = Inr y \<Longrightarrow> \<exists>ys. map_hook f xs = Inr ys"
  by (induction xs) auto

lemma run_model_no_images:
  assumes "iterations self num_images = 0"
      and "\<forall>x\<in>set (dataset self). \<exists>y. call_preprocess e x = Inr y"
  shows "run_model ev self num_images e s = Inr (empty_metrics, s)"
proof -
  from map_hook_total [OF assms(2)] obtain ds where
    ds: "map_hook (call_preprocess e) (dataset self) = Inr ds"
    by blast
  from map_hook_Inr [OF ds] have "length ds = length (dataset self)"
    by simp
  with assms(1) have "length (zip ds (zip (lens self) [0..<nat num_images])) = 0"
    by (simp add: iterations_def)
  then have z: "zip ds (zip (lens self) [0..<nat num_images]) = []"
    by (simp only: length_0_conv)
  show ?thesis
    by (simp only: run_model_def ds z sum.case measure_loop.simps)
qed

lemma run_models_no_images:
  fixes self :: "('a, 'b) llimcobe"
  assumes "iterations self num_images = 0"
      and "\<forall>e\<in>snd ` set (models self). \<forall>x\<in>set (dataset self). \<exists>y. call_preprocess e x = Inr y"
      and "set names \<subseteq> fst ` set (models self)"
  shows "\<exists>res'. run_models ev self num_images names res s = Inr (res', s)"
  using assms(3)
proof (induction names arbitrary: res)
  case Nil
  then show ?case by simp
next
  case (Cons nm rest)
  from Cons.prems have "nm \<in> fst ` set (models self)" by simp
  then obtain e where e: "map_of (models self) nm = Some e"
    by (metis map_of_eq_None_iff not_Some_eq)
  then have "(nm, e) \<in> set (models self)"
    by (rule map_of_SomeD)
  then have "e \<in> snd ` set (models self)"
    by force
  with assms(2) have "\<forall>x\<in>set (dataset self). \<exists>y. call_preprocess e x = Inr y"
    by blast
  from run_model_no_images [OF assms(1) this]
  have rm: "run_model ev self num_images e s = Inr (empty_metrics, s)" .
  from Cons.prems have "set rest \<subseteq> fst ` set (models self)" by simp
  from Cons.IH [OF this] e rm show ?case
    by (simp add: getitem_def)
qed

lemma benchmark_empty_measurement:
  fixes self :: "('a, 'b) llimcobe"
  assumes run: "run_models ev self num_images (map fst (models self)) empty_results
        (initial_state f) = Inr (rs, v)"
      and name: "name \<in> fst ` set (models self)"
      and empty: "map_of (all_bpsp rs) name = Some []"
  shows "benchmark ev self num_images f = Inl ZeroDivisionError"
proof -
  have all: "\<forall>name\<in>set (map fst (models self)). \<exists>bs cs ds.
       map_of (all_bpsp rs) name = Some bs \<and> map_of (all_throughput rs) name = Some cs \<and>
       map_of (all_dthroughput rs) name = Some ds"
  proof
    fix k assume "k \<in> set (map fst (models self))"
    from run_models_keys [OF run this] show "\<exists>bs cs ds.
       map_of (all_bpsp rs) k = Some bs \<and> map_of (all_throughput rs) k = Some cs \<and>
       map_of (all_dthroughput rs) k = Some ds"
      by blast
  qed
  from name empty have ex: "\<exists>name\<in>set (map fst (models self)). map_of (all_bpsp rs) name = Some []"
    by auto
  from report_empty [OF all ex] run show ?thesis
    by (simp add: benchmark_def)
qed

text \<open>
  C7. When the measurement part of a run has completed and the list of bpsp values of a
  registered model is empty, \<^verbatim>\<open>benchmark\<close> raises \<^verbatim>\<open>ZeroDivisionError\<close> at the means of
  lines 145-149 and returns nothing. That is the case whenever there is a model, no
  image is to be measured (\<^verbatim>\<open>num_images\<close> is not positive, or the dataset is empty) and
  the preprocess hooks accept the whole dataset.
\<close>

theorem empty_measurement_raises:
  fixes self :: "('a, 'b) llimcobe"
  shows
  "(run_models ev self num_images (map fst (models self)) empty_results (initial_state f) =
      Inr (rs, v) \<and>
    name \<in> fst ` set (models self) \<and> map_of (all_bpsp rs) name = Some [] \<longrightarrow>
      benchmark ev self num_images f = Inl ZeroDivisionError)
   \<and> (models self \<noteq> [] \<and> iterations self num_images = 0 \<and>
       (\<forall>e\<in>snd ` set (models self). \<forall>x\<in>set (dataset self). \<exists>y. call_preprocess e x = Inr y) \<longrightarrow>
      benchmark ev self num_images f = Inl ZeroDivisionError)"
proof (intro conjI impI)
  assume "run_models ev self num_images (map fst (models self)) empty_results (initial_state f) =
      Inr (rs, v) \<and>
    name \<in> fst ` set (models self) \<and> map_of (all_bpsp rs) name = Some []"
  then show "benchmark ev self num_images f = Inl ZeroDivisionError"
    using benchmark_empty_measurement by blast
next
  assume a: "models self \<noteq> [] \<and> iterations self num_images = 0 \<and>
       (\<forall>e\<in>snd ` set (models self). \<forall>x\<in>set (dataset self). \<exists>y. call_preprocess e x = Inr y)"
  then have it: "iterations self num_images = 0" and
    pre: "\<forall>e\<in>snd ` set (models self). \<forall>x\<in>set (dataset self). \<exists>y. call_preprocess e x = Inr y"
    by simp_all
  have sub: "set (map fst (models self)) \<subseteq> fst ` set (models self)"
    by simp
  from run_models_no_images [OF it pre sub] obtain res' where
    run: "run_models ev self num_images (map fst (models self)) empty_results (initial_state f) =
            Inr (res', initial_state f)"
    by blast
  from a obtain nm where nm: "nm \<in> set (map fst (models self))"
    by (cases "models self") auto
  from run_models_keys [OF run nm] it have "map_of (all_bpsp res') nm = Some []"
    by auto
  moreover from nm have "nm \<in> fst ` set (models self)"
    by simp
  ultimately show "benchmark ev self num_images f = Inl ZeroDivisionError"
    using benchmark_empty_measurement [OF run] by blast
qed

lemma ex_iterations_zero: "iterations ex_harness 0 = 0"
  by (simp add: iterations_def)

lemma ex_preprocess_total:
  "\<forall>e\<in>snd ` set (models ex_harness). \<forall>x\<in>set (dataset ex_harness).
     \<exists>y. call_preprocess e x = Inr y"
  by (simp add: ex_harness_models call_preprocess_def ex_raw_entry_def ex_half_entry_def
      ex_preprocess_def)

theorem empty_measurement_raises_witness:
  "models ex_harness \<noteq> [] \<and> iterations ex_harness 0 = 0 \<and>
   benchmark ex_env ex_harness 0 None = Inl ZeroDivisionError"
proof -
  have m: "models ex_harness \<noteq> []"
    by (simp add: ex_harness_models)
  from empty_measurement_raises
    [where self = ex_harness and num_images = 0 and ev = ex_env and f = None,
     THEN conjunct2, THEN mp, OF conjI [OF m conjI [OF ex_iterations_zero ex_preprocess_total]]]
  have "benchmark ex_env ex_harness 0 None = Inl ZeroDivisionError" .
  with m ex_iterations_zero show ?thesis
    by blast
qed

section \<open>Preprocessing\<close>

lemma map_hook_fails:
  "x \<in> set xs \<Longrightarrow> f x = Inl err \<Longrightarrow> \<exists>err'. map_hook f xs = Inl err'"
  by (induction xs) (auto split: sum.splits)

lemma run_model_preprocess_fails:
  "map_hook (call_preprocess e) (dataset self) = Inl err \<Longrightarrow>
   run_model ev self num_images e s = Inl err"
  by (simp add: run_model_def)

lemma run_models_preprocess_fails:
  fixes self :: "('a, 'b) llimcobe"
  assumes "name \<in> set names" and "map_of (models self) name = Some e"
      and "map_hook (call_preprocess e) (dataset self) = Inl err"
  shows "\<exists>err'. run_models ev self num_images names res s = Inl err'"
  using assms(1)
proof (induction names arbitrary: res s)
  case Nil
  then show ?case by simp
next
  case (Cons nm rest)
  show ?case
  proof (cases "nm = name")
    case True
    with assms(2) assms(3) show ?thesis
      by (simp add: getitem_def run_model_preprocess_fails)
  next
    case False
    with Cons.prems have "name \<in> set rest" by simp
    from Cons.IH [OF this] show ?thesis
      by (auto split: sum.splits)
  qed
qed

text \<open>
  C10. Line 100 preprocesses the whole dataset for a model before its inner loop starts.
  If the preprocess hook of a registered model raises on any image of the dataset,
  \<^verbatim>\<open>benchmark\<close> raises, whatever \<^verbatim>\<open>num_images\<close> is; for the model itself the exception of
  the preprocessing is the result, whatever the state, the clock and the other hooks
  are. When the body of the outer loop completes for a model of a well-formed object,
  the preprocess hook has accepted every image of the dataset, each of the three lists
  has \<open>min(num_images, len(dataset))\<close> entries, and the clock was read four times for
  each of them. In a completed run that holds of every registered model and of the
  lists recorded under its name.
\<close>

theorem preprocess_whole_dataset:
  fixes self :: "('a, 'b) llimcobe" and e :: "('a, 'b) entry" and m :: metrics
  shows
  "(map_of (models self) name = Some e \<and> x \<in> set (dataset self) \<and>
    call_preprocess e x = Inl err \<longrightarrow>
      (\<exists>err'. benchmark ev self num_images f = Inl err'))
   \<and> (map_hook (call_preprocess e) (dataset self) = Inl err \<longrightarrow>
        run_model ev self num_images e s = Inl err)
   \<and> (run_model ev self num_images e s = Inr (m, s') \<and> well_formed self \<longrightarrow>
        (\<exists>ds. length ds = length (dataset self) \<and>
           (\<forall>i<length (dataset self). call_preprocess e (dataset self ! i) = Inr (ds ! i))) \<and>
        length (bpsp_list m) = min (nat num_images) (length (dataset self)) \<and>
        length (compression_throughput_list m) = min (nat num_images) (length (dataset self)) \<and>
        length (decompression_throughput_list m) =
          min (nat num_images) (length (dataset self)) \<and>
        ticks s' = ticks s + 4 * min (nat num_images) (length (dataset self)))
   \<and> (benchmark ev self num_images f = Inr (out, rs, v) \<and> well_formed self \<and>
       k \<in> fst ` set (models self) \<longrightarrow>
        (\<exists>(ek :: ('a, 'b) entry) ds bps cts dts.
           map_of (models self) k = Some ek \<and>
           length ds = length (dataset self) \<and>
           (\<forall>i<length (dataset self). call_preprocess ek (dataset self ! i) = Inr (ds ! i)) \<and>
           map_of (all_bpsp rs) k = Some bps \<and>
           map_of (all_throughput rs) k = Some cts \<and>
           map_of (all_dthroughput rs) k = Some dts \<and>
           length bps = min (nat num_images) (length (dataset self)) \<and>
           length cts = min (nat num_images) (length (dataset self)) \<and>
           length dts = min (nat num_images) (length (dataset self))))"
proof (intro conjI impI)
  assume a: "map_of (models self) name = Some e \<and> x \<in> set (dataset self) \<and>
    call_preprocess e x = Inl err"
  then have "(name, e) \<in> set (models self)"
    by (simp add: map_of_SomeD)
  then have nm: "name \<in> set (map fst (models self))"
    by force
  from a map_hook_fails [of x "dataset self" "call_preprocess e" err] obtain err1 where
    "map_hook (call_preprocess e) (dataset self) = Inl err1"
    by blast
  from run_models_preprocess_fails [OF nm _ this] a obtain err' where
    "run_models ev self num_images (map fst (models self)) empty_results (initial_state f) =
       Inl err'"
    by blast
  then show "\<exists>err'. benchmark ev self num_images f = Inl err'"
    by (simp add: benchmark_def)
next
  assume "map_hook (call_preprocess e) (dataset self) = Inl err"
  then show "run_model ev self num_images e s = Inl err"
    by (rule run_model_preprocess_fails)
next
  assume a: "run_model ev self num_images e s = Inr (m, s') \<and> well_formed self"
  then have rm: "run_model ev self num_images e s = Inr (m, s')" and
    it: "iterations self num_images = min (nat num_images) (length (dataset self))"
    by (simp_all add: iterations_well_formed)
  from run_model_rows [OF rm] obtain ds where
    ds: "map_hook (call_preprocess e) (dataset self) = Inr ds" and
    len: "length (bpsp_list m) = iterations self num_images"
      "length (compression_throughput_list m) = iterations self num_images"
      "length (decompression_throughput_list m) = iterations self num_images"
      "ticks s' = ticks s + 4 * iterations self num_images"
    by blast
  from map_hook_Inr [OF ds] show "\<exists>ds. length ds = length (dataset self) \<and>
           (\<forall>i<length (dataset self). call_preprocess e (dataset self ! i) = Inr (ds ! i))"
    by blast
  from len show "length (bpsp_list m) = min (nat num_images) (length (dataset self))"
    "length (compression_throughput_list m) = min (nat num_images) (length (dataset self))"
    "length (decompression_throughput_list m) = min (nat num_images) (length (dataset self))"
    "ticks s' = ticks s + 4 * min (nat num_images) (length (dataset self))"
    by (simp_all only: it)
next
  assume a: "benchmark ev self num_images f = Inr (out, rs, v) \<and> well_formed self \<and>
       k \<in> fst ` set (models self)"
  then have run: "run_models ev self num_images (map fst (models self)) empty_results
      (initial_state f) = Inr (rs, v)"
    by (auto simp: benchmark_def split: sum.splits)
  from a have k: "k \<in> set (map fst (models self))"
    by simp
  from a have it: "iterations self num_images = min (nat num_images) (length (dataset self))"
    by (simp add: iterations_well_formed)
  from run_models_keys [OF run k] obtain ek :: "('a, 'b) entry" and ds and m :: metrics where
    ek: "map_of (models self) k = Some ek" and
    ds: "map_hook (call_preprocess ek) (dataset self) = Inr ds" and
    look: "map_of (all_bpsp rs) k = Some (bpsp_list m)"
      "map_of (all_throughput rs) k = Some (compression_throughput_list m)"
      "map_of (all_dthroughput rs) k = Some (decompression_throughput_list m)" and
    len: "length (bpsp_list m) = iterations self num_images"
      "length (compression_throughput_list m) = iterations self num_images"
      "length (decompression_throughput_list m) = iterations self num_images"
    by blast
  from map_hook_Inr [OF ds] have
    d: "length ds = length (dataset self)"
      "\<forall>i<length (dataset self). call_preprocess ek (dataset self ! i) = Inr (ds ! i)"
    by simp_all
  show "\<exists>(ek :: ('a, 'b) entry) ds bps cts dts.
           map_of (models self) k = Some ek \<and>
           length ds = length (dataset self) \<and>
           (\<forall>i<length (dataset self). call_preprocess ek (dataset self ! i) = Inr (ds ! i)) \<and>
           map_of (all_bpsp rs) k = Some bps \<and>
           map_of (all_throughput rs) k = Some cts \<and>
           map_of (all_dthroughput rs) k = Some dts \<and>
           length bps = min (nat num_images) (length (dataset self)) \<and>
           length cts = min (nat num_images) (length (dataset self)) \<and>
           length dts = min (nat num_images) (length (dataset self))"
    using ek d look len unfolding it by blast
qed

lemma ex_picky_models: "models ex_picky_harness = [(''picky'', ex_picky_entry)]"
  by (simp add: ex_picky_harness_def ex_empty_def ex_picky_entry_def set_model_def init_def
      truthy_def truthy_name_def)

lemma ex_picky_dataset: "dataset ex_picky_harness = ex_dataset"
  by (simp add: ex_picky_harness_def ex_empty_def set_model_def init_def
      truthy_def truthy_name_def)

lemma ex_picky_third:
  "call_preprocess ex_picky_entry (ex_dataset ! 2) = Inl (HookError ''blank image'')"
  by (simp add: call_preprocess_def ex_picky_entry_def ex_picky_preprocess_def ex_dataset_def
      ex_image_def)

lemma ex_picky_run:
  "benchmark ex_env ex_picky_harness 1 None = Inl (HookError ''blank image'')"
  by (simp add: benchmark_def ex_picky_models getitem_def run_model_def ex_picky_dataset
      call_preprocess_def ex_picky_entry_def ex_picky_preprocess_def ex_dataset_def ex_image_def)

lemma ex_run_one:
  "run_model ex_env ex_harness 1 ex_half_entry (initial_state None) =
     Inr (\<lparr>bpsp_list = [4], compression_throughput_list = [4 / 10 ^ 6],
            decompression_throughput_list = [4 / 10 ^ 6]\<rparr>,
          \<lparr>temp = None, ticks = 4, lossy_flag = True, warned = 1, displayed = []\<rparr>)"
  apply (simp add: run_model_def ex_harness_eq ex_preprocess_half)
  by (simp add: upt_conv_Cons step_defs ex_hooks ex_env_def initial_state_def
      empty_metrics_def append_row_def)

theorem preprocess_whole_dataset_witness:
  "map_of (models ex_picky_harness) ''picky'' = Some ex_picky_entry \<and>
   ex_dataset ! 2 \<in> set (dataset ex_picky_harness) \<and>
   call_preprocess ex_picky_entry (ex_dataset ! 2) = Inl (HookError ''blank image'') \<and>
   (\<exists>err'. benchmark ex_env ex_picky_harness 1 None = Inl err') \<and>
   benchmark ex_env ex_picky_harness 1 None = Inl (HookError ''blank image'') \<and>
   (\<exists>(m :: metrics) s'.
      run_model ex_env ex_harness 1 ex_half_entry (initial_state None) = Inr (m, s') \<and>
      well_formed ex_harness \<and> length (dataset ex_harness) = 3 \<and>
      length (bpsp_list m) = 1 \<and> length (compression_throughput_list m) = 1 \<and>
      length (decompression_throughput_list m) = 1 \<and>
      ticks s' = ticks (initial_state None) + 4) \<and>
   (\<exists>out v bps.
      benchmark ex_env ex_harness 2 None = Inr (out, ex_results, v) \<and>
      map_of (all_bpsp ex_results) ''half'' = Some bps \<and> length bps = 2 \<and>
      length (dataset ex_harness) = 3)"
proof -
  have a: "map_of (models ex_picky_harness) ''picky'' = Some ex_picky_entry"
    by (simp add: ex_picky_models)
  have b: "ex_dataset ! 2 \<in> set (dataset ex_picky_harness)"
    by (simp add: ex_picky_dataset ex_dataset_def)
  from preprocess_whole_dataset
    [where self = ex_picky_harness and name = "''picky''" and e = ex_picky_entry
       and x = "ex_dataset ! 2" and err = "HookError ''blank image''" and ev = ex_env
       and num_images = 1 and f = None,
     THEN conjunct1, THEN mp, OF conjI [OF a conjI [OF b ex_picky_third]]]
  have c: "\<exists>err'. benchmark ex_env ex_picky_harness 1 None = Inl err'" .
  have three: "length (dataset ex_harness) = 3"
    by (simp add: ex_harness_eq ex_dataset_def)
  let ?m = "\<lparr>bpsp_list = [4], compression_throughput_list = [4 / 10 ^ 6],
              decompression_throughput_list = [4 / 10 ^ 6]\<rparr>"
  let ?s1 = "\<lparr>temp = None, ticks = 4, lossy_flag = True, warned = 1, displayed = []\<rparr>"
  from preprocess_whole_dataset
    [where self = ex_harness and ev = ex_env and num_images = 1 and e = ex_half_entry
       and s = "initial_state None" and m = ?m and s' = ?s1,
     THEN conjunct2, THEN conjunct2, THEN conjunct1, THEN mp,
     OF conjI [OF ex_run_one ex_well_formed]]
  have "length (bpsp_list ?m) = min (nat 1) (length (dataset ex_harness))"
    "length (compression_throughput_list ?m) = min (nat 1) (length (dataset ex_harness))"
    "length (decompression_throughput_list ?m) = min (nat 1) (length (dataset ex_harness))"
    "ticks ?s1 = ticks (initial_state None) + 4 * min (nat 1) (length (dataset ex_harness))"
    by blast+
  then have "run_model ex_env ex_harness 1 ex_half_entry (initial_state None) = Inr (?m, ?s1) \<and>
      well_formed ex_harness \<and> length (dataset ex_harness) = 3 \<and>
      length (bpsp_list ?m) = 1 \<and> length (compression_throughput_list ?m) = 1 \<and>
      length (decompression_throughput_list ?m) = 1 \<and>
      ticks ?s1 = ticks (initial_state None) + 4"
    using ex_run_one ex_well_formed three by simp
  then have r: "\<exists>(m :: metrics) s'.
      run_model ex_env ex_harness 1 ex_half_entry (initial_state None) = Inr (m, s') \<and>
      well_formed ex_harness \<and> length (dataset ex_harness) = 3 \<and>
      length (bpsp_list m) = 1 \<and> length (compression_throughput_list m) = 1 \<and>
      length (decompression_throughput_list m) = 1 \<and>
      ticks s' = ticks (initial_state None) + 4"
    by blast
  have k: "''half'' \<in> fst ` set (models ex_harness)"
    by (simp add: ex_harness_models)
  from preprocess_whole_dataset
    [where self = ex_harness and ev = ex_env and num_images = 2 and f = None
       and rs = ex_results and k = "''half''",
     THEN conjunct2, THEN conjunct2, THEN conjunct2, THEN mp,
     OF conjI [OF ex_benchmark conjI [OF ex_well_formed k]]]
  obtain bps where
    "map_of (all_bpsp ex_results) ''half'' = Some bps"
    "length bps = min (nat 2) (length (dataset ex_harness))"
    by blast
  with three ex_benchmark have d: "\<exists>out v bps.
      benchmark ex_env ex_harness 2 None = Inr (out, ex_results, v) \<and>
      map_of (all_bpsp ex_results) ''half'' = Some bps \<and> length bps = 2 \<and>
      length (dataset ex_harness) = 3"
    by auto
  from a b ex_picky_third c ex_picky_run r d show ?thesis
    by blast
qed

end
